theory Spec2Isabelle
  imports Complex_Main "HOL-Library.Sublist"
begin

section \<open>Transcript loading for curated video collections (youtube\_loader.py)\<close>

text \<open>
  The module resolves a video reference to a transcript: first from a directory of
  text files, then from a remote caption service, and it can preload a catalog of
  videos and write an index of the outcome.

  Conventions of the embedding.
  \<^item> A Python \<open>str\<close> is a \<open>string\<close>; a \<open>char\<close> is read as the code point of the
    same number, so the strings of the model are the Python strings whose code
    points are below 256.
  \<^item> A function that can raise returns \<open>exn + 'a\<close>, with \<open>Inl\<close> for the
    exception.
  \<^item> What the module reads from its surroundings is explicit: the record \<open>pyenv\<close>
    holds what is fixed when the module is imported (the caption library and the
    parts of the standard library that are taken as given), the record \<open>world\<close>
    holds what changes while it runs (the files, and the record of remote fetches
    and pauses, kept so that ``is not called'' can be stated).
  \<^item> A dict that is only traversed is an association list in the order of its
    traversal; a dict that is looked up by key is a map.
  \<^item> Files are read and written as on a POSIX system, where a written line feed
    stays a line feed.
  \<^item> Calls of the logger are not modelled; they change nothing that the module
    reads. What the module does when it is imported (it configures the logger and
    creates the transcript directory) is not modelled either.
\<close>

subsection \<open>Strings\<close>

definition TAB :: char where "TAB = CHR 0x09"
definition LF :: char where "LF = CHR 0x0A"
definition CR :: char where "CR = CHR 0x0D"

text \<open>The characters below 256 for which \<open>str.isspace\<close> holds.\<close>

definition whitespace :: string where
  "whitespace = [CHR 0x09, CHR 0x0A, CHR 0x0B, CHR 0x0C, CHR 0x0D, CHR 0x1C, CHR 0x1D,
     CHR 0x1E, CHR 0x1F, CHR 0x20, CHR 0x85, CHR 0xA0]"

definition is_space :: "char \<Rightarrow> bool" where
  "is_space c = (c \<in> set whitespace)"

text \<open>\<open>s.lstrip(chars)\<close>, \<open>s.rstrip(chars)\<close>, \<open>s.strip(chars)\<close> and \<open>s.strip()\<close>.\<close>

definition lstrip_chars :: "string \<Rightarrow> string \<Rightarrow> string" where
  "lstrip_chars chars s = dropWhile (\<lambda>c. c \<in> set chars) s"

definition rstrip_chars :: "string \<Rightarrow> string \<Rightarrow> string" where
  "rstrip_chars chars s = rev (dropWhile (\<lambda>c. c \<in> set chars) (rev s))"

definition strip_chars :: "string \<Rightarrow> string \<Rightarrow> string" where
  "strip_chars chars s = rstrip_chars chars (lstrip_chars chars s)"

definition strip :: "string \<Rightarrow> string" where
  "strip s = strip_chars whitespace s"

text \<open>\<open>sub in s\<close> for strings.\<close>

fun str_in :: "string \<Rightarrow> string \<Rightarrow> bool" where
  "str_in sub [] = (sub = [])"
| "str_in sub (c # cs) = (prefix sub (c # cs) \<or> str_in sub cs)"

text \<open>
  \<open>s.partition(c)\<close> for a single character: \<open>before c s\<close> is the part in front of the
  first \<open>c\<close> (all of \<open>s\<close> when there is none), \<open>after c s\<close> the part behind it (empty
  when there is none). They are also the two results of \<open>s.split(c, 1)\<close> when \<open>c\<close>
  occurs in \<open>s\<close>, and \<open>s[:i]\<close>, \<open>s[i+1:]\<close> for \<open>i = s.find(c)\<close>.
\<close>

definition before :: "char \<Rightarrow> string \<Rightarrow> string" where
  "before c s = takeWhile (\<lambda>x. x \<noteq> c) s"

definition after :: "char \<Rightarrow> string \<Rightarrow> string" where
  "after c s = drop 1 (dropWhile (\<lambda>x. x \<noteq> c) s)"

text \<open>\<open>s.split(c)\<close> for a single character; the result is never empty.\<close>

fun split_on :: "char \<Rightarrow> string \<Rightarrow> string list" where
  "split_on c [] = [[]]"
| "split_on c (x # xs) =
     (if x = c then [] # split_on c xs
      else (case split_on c xs of
              [] \<Rightarrow> [[x]]
            | y # ys \<Rightarrow> (x # y) # ys))"

text \<open>\<open>sep.join(xs)\<close>.\<close>

fun join :: "string \<Rightarrow> string list \<Rightarrow> string" where
  "join sep [] = []"
| "join sep [x] = x"
| "join sep (x # y # ys) = x @ sep @ join sep (y # ys)"

text \<open>
  \<open>c.isascii() and c.isalpha()\<close>, \<open>c.isascii()\<close>, and \<open>s.lower()\<close> on ASCII letters
  (the module's calls lower-case strings of ASCII letters, digits and \<open>+-.\<close> only).
\<close>

definition ascii_upper :: string where
  "ascii_upper = ''ABCDEFGHIJKLMNOPQRSTUVWXYZ''"

definition ascii_lower :: string where
  "ascii_lower = ''abcdefghijklmnopqrstuvwxyz''"

definition is_ascii_alpha :: "char \<Rightarrow> bool" where
  "is_ascii_alpha c = (c \<in> set (ascii_lower @ ascii_upper))"

definition is_ascii :: "char \<Rightarrow> bool" where
  "is_ascii c = (\<not> digit7 c)"

definition lower_char :: "char \<Rightarrow> char" where
  "lower_char c = (case map_of (zip ascii_upper ascii_lower) c of Some d \<Rightarrow> d | None \<Rightarrow> c)"

definition lower :: "string \<Rightarrow> string" where
  "lower s = map lower_char s"

subsection \<open>Exceptions, and what the module takes from its environment\<close>

datatype exn = ValueError | KeyError | IndexError | OSError | OverflowError

text \<open>
  The caption library: \<open>YouTubeTranscriptApi.get_transcript\<close> returns a list of
  segments, each a dict, or raises. A value of a segment is a string or something
  that is not a string (a number, \<open>None\<close>), which has no \<open>strip\<close> method.
\<close>

datatype api_exn =
  TranscriptsDisabled | NoTranscriptFound | CouldNotRetrieveTranscript | OtherException

datatype pyval = PyStr string | PyOther

type_synonym segment = "string \<rightharpoonup> pyval"

text \<open>What \<open>json.loads\<close> returns.\<close>

datatype json =
  JNull | JBool bool | JNumber real | JString string
| JArray "json list" | JObject "(string \<times> json) list"

text \<open>
  The environment of the module.
  \<^item> \<open>YT_AVAILABLE\<close>: whether the import of the caption library succeeded.
  \<^item> \<open>get_transcript\<close>: the caption library's call, by video id and language list.
  \<^item> \<open>check_bracketed_host\<close>: whether \<open>urllib.parse._check_bracketed_host\<close> accepts
    the text between the brackets of a network location (it asks the \<open>ipaddress\<close>
    module).
  \<^item> \<open>checknetloc_nfkc\<close>: whether \<open>urllib.parse._checknetloc\<close> accepts a network
    location that is not pure ASCII (it asks the \<open>unicodedata\<close> module).
  \<^item> \<open>unquote_escapes\<close>: what \<open>urllib.parse.unquote\<close> returns for a string in which
    \<open>%\<close> occurs (percent escapes decoded as UTF-8, errors replaced).
  \<^item> \<open>json_loads\<close>: \<open>json.loads\<close>.
  \<^item> \<open>sleep_range_error\<close>: the exception that \<open>time.sleep\<close> raises for a finite length
    because of its size, \<open>None\<close> for a length it can handle: an \<open>OverflowError\<close> when the
    length does not fit the clock's integer nanoseconds, an \<open>OSError\<close> when the system
    call refuses it (with CPython 3.11 on Linux, lengths of about \<open>9.2e9\<close> seconds and
    more in absolute value).
\<close>

record pyenv =
  YT_AVAILABLE :: bool
  get_transcript :: "string \<Rightarrow> string list \<Rightarrow> api_exn + segment list"
  check_bracketed_host :: "string \<Rightarrow> bool"
  checknetloc_nfkc :: "string \<Rightarrow> bool"
  unquote_escapes :: "string \<Rightarrow> string"
  json_loads :: "string \<Rightarrow> exn + json"
  sleep_range_error :: "real \<Rightarrow> exn option"

subsection \<open>\<open>urllib.parse\<close>: \<open>urlparse\<close> and \<open>parse_qs\<close> (CPython 3.11)\<close>

record split_result =
  scheme :: string
  netloc :: string
  path :: string
  query :: string
  fragment :: string

record parse_result = split_result +
  params :: string

definition scheme_chars :: string where
  "scheme_chars = ''abcdefghijklmnopqrstuvwxyz'' @ ''ABCDEFGHIJKLMNOPQRSTUVWXYZ''
     @ ''0123456789'' @ ''+-.''"

definition uses_params :: "string list" where
  "uses_params = ['''', ''ftp'', ''hdl'', ''prospero'', ''http'', ''imap'', ''https'',
     ''shttp'', ''rtsp'', ''rtsps'', ''rtspu'', ''sip'', ''sips'', ''mms'', ''sftp'', ''tel'']"

text \<open>The characters \<open>\x00\<close> to \<open>\x1f\<close> and the space, which \<open>urlsplit\<close> strips on the left.\<close>

definition is_c0_control_or_space :: "char \<Rightarrow> bool" where
  "is_c0_control_or_space c = (of_char c \<le> (32::nat))"

text \<open>
  The scheme: with \<open>i = url.find(':')\<close>, if \<open>i > 0\<close>, the first character is an ASCII
  letter and \<open>url[:i]\<close> has scheme characters only, the scheme is \<open>url[:i].lower()\<close>
  and the rest is \<open>url[i+1:]\<close>.
\<close>

definition split_scheme :: "string \<Rightarrow> string \<times> string" where
  "split_scheme url =
     (let s = before CHR '':'' url in
      if CHR '':'' \<in> set url
         \<and> (case s of [] \<Rightarrow> False | c # _ \<Rightarrow> is_ascii_alpha c)
         \<and> list_all (\<lambda>c. c \<in> set scheme_chars) s
      then (lower s, after CHR '':'' url)
      else ('''', url))"

text \<open>\<open>_splitnetloc(url, 2)\<close>: from index 2 to the first of \<open>/\<close>, \<open>?\<close>, \<open>#\<close>.\<close>

definition splitnetloc :: "string \<Rightarrow> string \<times> string" where
  "splitnetloc url =
     (takeWhile (\<lambda>c. c \<notin> set ''/?#'') (drop 2 url),
      dropWhile (\<lambda>c. c \<notin> set ''/?#'') (drop 2 url))"

text \<open>The two checks of brackets in the network location; \<open>False\<close> is a \<open>ValueError\<close>.\<close>

definition brackets_ok :: "pyenv \<Rightarrow> string \<Rightarrow> bool" where
  "brackets_ok env nl =
     (let lb = CHR ''['' \<in> set nl; rb = CHR '']'' \<in> set nl in
      if (lb \<and> \<not> rb) \<or> (rb \<and> \<not> lb) then False
      else if lb \<and> rb then check_bracketed_host env (before CHR '']'' (after CHR ''['' nl))
      else True)"

definition checknetloc :: "pyenv \<Rightarrow> string \<Rightarrow> bool" where
  "checknetloc env nl = (nl = [] \<or> list_all is_ascii nl \<or> checknetloc_nfkc env nl)"

definition urlsplit :: "pyenv \<Rightarrow> string \<Rightarrow> exn + split_result" where
  "urlsplit env url0 =
     (let url1 = filter (\<lambda>c. c \<notin> set [TAB, CR, LF]) (dropWhile is_c0_control_or_space url0);
          (sch, url2) = split_scheme url1;
          (nl, url3) = (if take 2 url2 = ''//'' then splitnetloc url2 else ('''', url2));
          (url4, frag) = (if CHR ''#'' \<in> set url3
                          then (before CHR ''#'' url3, after CHR ''#'' url3) else (url3, ''''));
          (url5, qry) = (if CHR ''?'' \<in> set url4
                         then (before CHR ''?'' url4, after CHR ''?'' url4) else (url4, ''''))
      in if \<not> brackets_ok env nl then Inl ValueError
         else if \<not> checknetloc env nl then Inl ValueError
         else Inr \<lparr>scheme = sch, netloc = nl, path = url5, query = qry, fragment = frag\<rparr>)"

text \<open>
  \<open>_splitparams\<close>, called when \<open>;\<close> occurs in the path: the parameters start at the
  first \<open>;\<close> at or behind the last \<open>/\<close>.
\<close>

definition splitparams :: "string \<Rightarrow> string \<times> string" where
  "splitparams url =
     (if CHR ''/'' \<in> set url then
        (let seg = rev (takeWhile (\<lambda>c. c \<noteq> CHR ''/'') (rev url));
             pre = rev (dropWhile (\<lambda>c. c \<noteq> CHR ''/'') (rev url))
         in if CHR '';'' \<in> set seg then (pre @ before CHR '';'' seg, after CHR '';'' seg)
            else (url, ''''))
      else (before CHR '';'' url, after CHR '';'' url))"

definition urlparse :: "pyenv \<Rightarrow> string \<Rightarrow> exn + parse_result" where
  "urlparse env url =
     (case urlsplit env url of
        Inl e \<Rightarrow> Inl e
      | Inr r \<Rightarrow>
          (let (p, prm) = (if scheme r \<in> set uses_params \<and> CHR '';'' \<in> set (path r)
                           then splitparams (path r) else (path r, ''''))
           in Inr \<lparr>scheme = scheme r, netloc = netloc r, path = p, query = query r,
                    fragment = fragment r, params = prm\<rparr>))"

definition unquote :: "pyenv \<Rightarrow> string \<Rightarrow> string" where
  "unquote env s = (if CHR ''%'' \<notin> set s then s else unquote_escapes env s)"

definition unquote_plus :: "pyenv \<Rightarrow> string \<Rightarrow> string" where
  "unquote_plus env s = unquote env (map (\<lambda>c. if c = CHR ''+'' then CHR '' '' else c) s)"

text \<open>
  \<open>parse_qsl\<close> with its defaults: fields are separated by \<open>&\<close>; an empty field, and a
  field whose value is empty, is skipped.
\<close>

definition parse_field :: "pyenv \<Rightarrow> string \<Rightarrow> (string \<times> string) list" where
  "parse_field env name_value =
     (if name_value \<noteq> [] then
        (let name = before CHR ''='' name_value; value = after CHR ''='' name_value
         in if value \<noteq> [] then [(unquote_plus env name, unquote_plus env value)] else [])
      else [])"

definition parse_qsl :: "pyenv \<Rightarrow> string \<Rightarrow> (string \<times> string) list" where
  "parse_qsl env qs =
     (if qs = [] then [] else concat (map (parse_field env) (split_on CHR ''&'' qs)))"

text \<open>\<open>parse_qs\<close>: a dict from each name to the list of its values, in order.\<close>

fun parse_qs_add :: "(string \<rightharpoonup> string list) \<Rightarrow> (string \<times> string) list
    \<Rightarrow> (string \<rightharpoonup> string list)" where
  "parse_qs_add parsed_result [] = parsed_result"
| "parse_qs_add parsed_result ((name, value) # pairs) =
     parse_qs_add
       (case parsed_result name of
          Some vs \<Rightarrow> parsed_result(name \<mapsto> vs @ [value])
        | None \<Rightarrow> parsed_result(name \<mapsto> [value]))
       pairs"

definition parse_qs :: "pyenv \<Rightarrow> string \<Rightarrow> (string \<rightharpoonup> string list)" where
  "parse_qs env qs = parse_qs_add Map.empty (parse_qsl env qs)"

subsection \<open>Video ID extractor\<close>

definition extract_video_id :: "pyenv \<Rightarrow> string \<Rightarrow> exn + string" where
  "extract_video_id env video_url_or_id =
     (if \<not> str_in ''youtube.com'' video_url_or_id \<and> \<not> str_in ''youtu.be'' video_url_or_id
      then Inr (strip video_url_or_id)
      else
        (case urlparse env video_url_or_id of
           Inl e \<Rightarrow> Inl e
         | Inr parsed \<Rightarrow>
             (case (if str_in ''youtube.com'' (netloc parsed)
                    then parse_qs env (query parsed) ''v'' else None) of
                Some vs \<Rightarrow> (case vs of [] \<Rightarrow> Inl IndexError | x # _ \<Rightarrow> Inr x)
              | None \<Rightarrow>
                  if str_in ''youtu.be'' (netloc parsed)
                  then Inr (lstrip_chars ''/'' (path parsed))
                  else Inr (last (split_on CHR ''/'' (strip_chars ''/'' (path parsed)))))))"

subsection \<open>The files\<close>

text \<open>
  What the file system has for a path: a text file that \<open>read_text\<close> can read,
  holding the characters that were written; a file whose bytes are not UTF-8;
  something that cannot be opened for reading (a directory, a file without read
  permission); or a failing lookup, where \<open>stat\<close> raises an error that \<open>Path.exists\<close>
  does not ignore (a name that the file system finds too long, a directory that may
  not be searched).
\<close>

datatype fs_entry = Text string | Undecodable | NoRead | NoStat

datatype event = Fetch string "string list option" | Sleep real

text \<open>
  The state the module works on.
  \<^item> \<open>files\<close>: what the file system has for each path; \<open>None\<close> when it reports that
    nothing stands there.
  \<^item> \<open>unwritable\<close>: the paths at which \<open>write_text\<close> raises because the file cannot
    be opened for writing (a missing or protected directory, a protected file, a name
    that is too long). A write that fails after the file was opened (a full disk) is
    outside the model.
  \<^item> \<open>events\<close>: the calls of \<open>fetch_youtube_transcript\<close> and of \<open>sleep\<close> so far, in
    order.
\<close>

record world =
  files :: "string \<rightharpoonup> fs_entry"
  unwritable :: "string set"
  events :: "event list"

text \<open>
  Reading in text mode turns every \<open>\r\n\<close> and every other \<open>\r\<close> into \<open>\n\<close>
  (universal newlines, the default of \<open>open\<close>).
\<close>

fun universal_newlines :: "string \<Rightarrow> string" where
  "universal_newlines [] = []"
| "universal_newlines [c] = (if c = CR then [LF] else [c])"
| "universal_newlines (c # d # cs) =
     (if c = CR then
        (if d = LF then LF # universal_newlines cs else LF # universal_newlines (d # cs))
      else c # universal_newlines (d # cs))"

text \<open>
  \<open>Path.exists\<close>: it answers where the lookup answers, and raises the \<open>OSError\<close> of a
  failing lookup.
\<close>

definition exists :: "world \<Rightarrow> string \<Rightarrow> exn + bool" where
  "exists w p =
     (case files w p of
        None \<Rightarrow> Inr False
      | Some NoStat \<Rightarrow> Inl OSError
      | Some _ \<Rightarrow> Inr True)"

definition read_text :: "world \<Rightarrow> string \<Rightarrow> exn + string" where
  "read_text w p =
     (case files w p of
        None \<Rightarrow> Inl OSError
      | Some (Text raw) \<Rightarrow> Inr (universal_newlines raw)
      | Some Undecodable \<Rightarrow> Inl ValueError
      | Some NoRead \<Rightarrow> Inl OSError
      | Some NoStat \<Rightarrow> Inl OSError)"

text \<open>
  A write that raises leaves the files as they were. A write that succeeds puts the
  text at the path; what cannot be opened for reading stays so.
\<close>

definition write_text :: "world \<Rightarrow> string \<Rightarrow> string \<Rightarrow> exn + world" where
  "write_text w p text =
     (if p \<in> unwritable w then Inl OSError
      else Inr (w\<lparr>files := (files w)(p \<mapsto>
                  (case files w p of Some NoRead \<Rightarrow> NoRead | _ \<Rightarrow> Text text))\<rparr>))"

text \<open>
  \<open>pathlib\<close>: \<open>TRANSCRIPTS_DIR / f"{video_id}.txt"\<close> as a string. Empty components and
  \<open>.\<close> are dropped; a name that starts with a slash replaces the directory.
\<close>

definition path_parts :: "string \<Rightarrow> string list" where
  "path_parts s = filter (\<lambda>x. x \<noteq> [] \<and> x \<noteq> ''.'') (split_on CHR ''/'' s)"

definition transcript_file :: "string \<Rightarrow> string" where
  "transcript_file vid =
     (let name = vid @ ''.txt'' in
      if take 1 name = ''/'' then
        (if take 2 name = ''//'' \<and> take 3 name \<noteq> ''///'' then ''//'' else ''/'')
          @ join ''/'' (path_parts name)
      else join ''/'' ([''data'', ''transcripts''] @ path_parts name))"

definition index_path :: string where
  "index_path = ''data/curated_index.json''"

subsection \<open>Local transcript loading/saving\<close>

text \<open>
  The loader asks \<open>path.exists()\<close> outside its \<open>try\<close>, so the error of a failing
  lookup leaves it; a failing read is caught and gives \<open>None\<close>.
\<close>

definition load_local_transcript :: "world \<Rightarrow> string \<Rightarrow> exn + string option" where
  "load_local_transcript w vid =
     (let p = transcript_file vid in
      case exists w p of
        Inl e \<Rightarrow> Inl e
      | Inr found \<Rightarrow>
          if \<not> found then Inr None
          else (case read_text w p of Inr t \<Rightarrow> Inr (Some t) | Inl e \<Rightarrow> Inr None))"

definition save_local_transcript :: "world \<Rightarrow> string \<Rightarrow> string \<Rightarrow> string \<times> world" where
  "save_local_transcript w vid text =
     (let p = transcript_file vid in
      case write_text w p text of Inr w' \<Rightarrow> (p, w') | Inl e \<Rightarrow> (p, w))"

subsection \<open>YouTubeTranscriptApi wrapper\<close>

text \<open>
  The generator over the segments: the stripped text of each segment whose stripped
  text is not empty; \<open>None\<close> when \<open>strip\<close> is called on a value that is not a string
  (an \<open>AttributeError\<close>, which the wrapper catches like every other exception).
\<close>

fun stripped_texts :: "segment list \<Rightarrow> string list option" where
  "stripped_texts [] = Some []"
| "stripped_texts (s # segments) =
     (case (case s ''text'' of None \<Rightarrow> PyStr '''' | Some v \<Rightarrow> v) of
        PyOther \<Rightarrow> None
      | PyStr t \<Rightarrow>
          (case stripped_texts segments of
             None \<Rightarrow> None
           | Some ts \<Rightarrow> Some (if strip t \<noteq> [] then strip t # ts else ts)))"

definition fetch_youtube_transcript ::
  "pyenv \<Rightarrow> world \<Rightarrow> string \<Rightarrow> string list option \<Rightarrow> string option \<times> world" where
  "fetch_youtube_transcript env w vid languages =
     (let w' = w\<lparr>events := events w @ [Fetch vid languages]\<rparr> in
      if \<not> YT_AVAILABLE env then (None, w')
      else
        (let langs = (case languages of None \<Rightarrow> [''en'', ''en-US''] | Some ls \<Rightarrow> ls) in
         case get_transcript env vid langs of
           Inl e \<Rightarrow> (None, w')
         | Inr segments \<Rightarrow>
             (case stripped_texts segments of
                None \<Rightarrow> (None, w')
              | Some ts \<Rightarrow>
                  (let text = join [LF] ts in
                   if text \<noteq> [] then (Some text, w') else (None, w')))))"

subsection \<open>Unified transcript loader\<close>

record meta =
  video_id :: string
  source :: string
  saved_locally :: bool

definition get_or_create_transcript ::
  "pyenv \<Rightarrow> world \<Rightarrow> string \<Rightarrow> bool \<Rightarrow> bool \<Rightarrow> string list option
    \<Rightarrow> exn + ((string option \<times> meta) \<times> world)" where
  "get_or_create_transcript env w video_url_or_id use_youtube_fallback save_downloaded languages =
     (case extract_video_id env video_url_or_id of
        Inl e \<Rightarrow> Inl e
      | Inr vid \<Rightarrow>
          (let m = \<lparr>video_id = vid, source = ''none'', saved_locally = False\<rparr> in
           case load_local_transcript w vid of
             Inl e \<Rightarrow> Inl e
           | Inr local \<Rightarrow>
               (case local of
                  Some (c # cs) \<Rightarrow> Inr ((local, m\<lparr>source := ''local''\<rparr>), w)
                | _ \<Rightarrow>
                    if use_youtube_fallback then
                      (let (yt, w1) = fetch_youtube_transcript env w vid languages in
                       case yt of
                         Some (c # cs) \<Rightarrow>
                           (if save_downloaded then
                              (let (p, w2) = save_local_transcript w1 vid (c # cs) in
                               Inr ((yt, m\<lparr>source := ''youtube'', saved_locally := True\<rparr>), w2))
                            else Inr ((yt, m\<lparr>source := ''youtube''\<rparr>), w1))
                       | _ \<Rightarrow> Inr ((None, m), w1))
                    else Inr ((None, m), w))))"

subsection \<open>Bulk preload\<close>

record index_entry =
  collection :: string
  title :: string
  url :: string
  entry_video_id :: string
  transcript_source :: string
  transcript_path :: "string option"

text \<open>
  A Python \<open>float\<close>: a finite value, an infinity, or not a number.
\<close>

datatype pyfloat = Finite real | PosInf | NegInf | NaN

text \<open>
  \<open>time.sleep\<close>: not a number is a \<open>ValueError\<close>; an infinity does not fit the clock's
  integer nanoseconds, an \<open>OverflowError\<close>; for a finite length the environment says
  whether its size is refused; a negative length that is not refused for its size is
  a \<open>ValueError\<close>.
\<close>

definition sleep :: "pyenv \<Rightarrow> pyfloat \<Rightarrow> world \<Rightarrow> exn + world" where
  "sleep env delay_seconds w =
     (case delay_seconds of
        NaN \<Rightarrow> Inl ValueError
      | PosInf \<Rightarrow> Inl OverflowError
      | NegInf \<Rightarrow> Inl OverflowError
      | Finite r \<Rightarrow>
          (case sleep_range_error env r of
             Some e \<Rightarrow> Inl e
           | None \<Rightarrow>
               if r < 0 then Inl ValueError
               else Inr (w\<lparr>events := events w @ [Sleep r]\<rparr>)))"

text \<open>The body of the inner loop, for one video \<open>v\<close> of a collection.\<close>

definition preload_video ::
  "pyenv \<Rightarrow> bool \<Rightarrow> pyfloat \<Rightarrow> string \<Rightarrow> (string \<rightharpoonup> string) \<Rightarrow> index_entry list \<times> world
    \<Rightarrow> exn + (index_entry list \<times> world)" where
  "preload_video env use_youtube_fallback delay_seconds coll v st =
     (case st of (index, w) \<Rightarrow>
      (case v ''url'' of
         None \<Rightarrow> Inl KeyError
       | Some u \<Rightarrow>
           (let t = (case v ''title'' of None \<Rightarrow> '''' | Some x \<Rightarrow> x) in
            case get_or_create_transcript env w u use_youtube_fallback True None of
              Inl e \<Rightarrow> Inl e
            | Inr ((transcript, m), w1) \<Rightarrow>
                (let vid = video_id m;
                     p = transcript_file vid
                 in case exists w1 p of
                      Inl e \<Rightarrow> Inl e
                    | Inr found \<Rightarrow>
                        (let entry = \<lparr>collection = coll, title = t, url = u,
                                      entry_video_id = vid, transcript_source = source m,
                                      transcript_path = (if found then Some p else None)\<rparr>
                         in case sleep env delay_seconds w1 of
                              Inl e \<Rightarrow> Inl e
                            | Inr w2 \<Rightarrow> Inr (index @ [entry], w2))))))"

fun preload_videos ::
  "pyenv \<Rightarrow> bool \<Rightarrow> pyfloat \<Rightarrow> string \<Rightarrow> (string \<rightharpoonup> string) list \<Rightarrow> index_entry list \<times> world
    \<Rightarrow> exn + (index_entry list \<times> world)" where
  "preload_videos env ufb delay coll [] st = Inr st"
| "preload_videos env ufb delay coll (v # videos) st =
     (case preload_video env ufb delay coll v st of
        Inl e \<Rightarrow> Inl e
      | Inr st' \<Rightarrow> preload_videos env ufb delay coll videos st')"

fun preload_collections ::
  "pyenv \<Rightarrow> bool \<Rightarrow> pyfloat \<Rightarrow> (string \<times> (string \<rightharpoonup> string) list) list
    \<Rightarrow> index_entry list \<times> world \<Rightarrow> exn + (index_entry list \<times> world)" where
  "preload_collections env ufb delay [] st = Inr st"
| "preload_collections env ufb delay ((coll, videos) # rest) st =
     (case preload_videos env ufb delay coll videos st of
        Inl e \<Rightarrow> Inl e
      | Inr st' \<Rightarrow> preload_collections env ufb delay rest st')"

text \<open>
  \<open>json.dumps(index, indent=2)\<close> for a list of index entries: strings are escaped to
  ASCII, \<open>None\<close> is \<open>null\<close>, an empty list is \<open>[]\<close>.
\<close>

definition hex_digit :: "nat \<Rightarrow> char" where
  "hex_digit n = ''0123456789abcdef'' ! (n mod 16)"

definition json_escape_char :: "char \<Rightarrow> string" where
  "json_escape_char c =
     (if c = CHR 0x22 then [CHR 0x5C, CHR 0x22]
      else if c = CHR 0x5C then [CHR 0x5C, CHR 0x5C]
      else if c = CHR 0x08 then [CHR 0x5C, CHR ''b'']
      else if c = CHR 0x0C then [CHR 0x5C, CHR ''f'']
      else if c = LF then [CHR 0x5C, CHR ''n'']
      else if c = CR then [CHR 0x5C, CHR ''r'']
      else if c = TAB then [CHR 0x5C, CHR ''t'']
      else if 32 \<le> (of_char c :: nat) \<and> (of_char c :: nat) \<le> 126 then [c]
      else [CHR 0x5C, CHR ''u'', CHR ''0'', CHR ''0'',
            hex_digit (of_char c div 16), hex_digit (of_char c)])"

definition json_string :: "string \<Rightarrow> string" where
  "json_string s = [CHR 0x22] @ concat (map json_escape_char s) @ [CHR 0x22]"

definition json_member :: "string \<Rightarrow> string \<Rightarrow> string" where
  "json_member k v = ''    '' @ json_string k @ '': '' @ v"

definition json_entry :: "index_entry \<Rightarrow> string" where
  "json_entry e =
     ''{'' @ [LF] @
     join ('','' @ [LF])
       [json_member ''collection'' (json_string (collection e)),
        json_member ''title'' (json_string (title e)),
        json_member ''url'' (json_string (url e)),
        json_member ''video_id'' (json_string (entry_video_id e)),
        json_member ''transcript_source'' (json_string (transcript_source e)),
        json_member ''transcript_path''
          (case transcript_path e of None \<Rightarrow> ''null'' | Some p \<Rightarrow> json_string p)]
     @ [LF] @ ''  }''"

definition json_dumps :: "index_entry list \<Rightarrow> string" where
  "json_dumps index =
     (if index = [] then ''[]''
      else ''['' @ [LF] @ ''  '' @ join ('','' @ [LF] @ ''  '') (map json_entry index)
           @ [LF] @ '']'')"

definition preload_curated_transcripts ::
  "pyenv \<Rightarrow> world \<Rightarrow> (string \<times> (string \<rightharpoonup> string) list) list \<Rightarrow> bool \<Rightarrow> pyfloat
    \<Rightarrow> exn + (index_entry list \<times> world)" where
  "preload_curated_transcripts env w curated_map use_youtube_fallback delay_seconds =
     (case preload_collections env use_youtube_fallback delay_seconds curated_map ([], w) of
        Inl e \<Rightarrow> Inl e
      | Inr (index, w1) \<Rightarrow>
          (case write_text w1 index_path (json_dumps index) of
             Inl e \<Rightarrow> Inl e
           | Inr w2 \<Rightarrow> Inr (index, w2)))"

subsection \<open>Index loader\<close>

definition load_curated_index :: "pyenv \<Rightarrow> world \<Rightarrow> exn + json" where
  "load_curated_index env w =
     (case exists w index_path of
        Inl e \<Rightarrow> Inl e
      | Inr found \<Rightarrow>
          if \<not> found then Inr (JArray [])
          else (case read_text w index_path of
                  Inl e \<Rightarrow> Inl e
                | Inr s \<Rightarrow> json_loads env s))"

subsection \<open>Concrete environments and states for the examples\<close>

text \<open>
  An environment in which the caption library is installed and has captions for the
  video \<open>abc123\<close> only. The examples never reach the three parts of \<open>urllib\<close> that
  are taken as given, and parse no JSON other than \<open>[]\<close> and \<open>[null]\<close>. The size of a
  sleep is refused from \<open>9e9\<close> seconds on (the bound of CPython 3.11 on Linux is a
  little higher); the examples sleep for a second and a half or for a negative second.
\<close>

definition example_env :: pyenv where
  "example_env =
     \<lparr>YT_AVAILABLE = True,
      get_transcript = (\<lambda>vid langs.
         if vid = ''abc123''
         then Inr [[''text'' \<mapsto> PyStr '' Hello ''], [''text'' \<mapsto> PyStr ''world'']]
         else Inl NoTranscriptFound),
      check_bracketed_host = (\<lambda>h. False),
      checknetloc_nfkc = (\<lambda>n. False),
      unquote_escapes = (\<lambda>s. s),
      json_loads = (\<lambda>s. if s = ''[]'' then Inr (JArray [])
                         else if s = ''[null]'' then Inr (JArray [JNull])
                         else Inl ValueError),
      sleep_range_error = (\<lambda>r. if 9000000000 \<le> \<bar>r\<bar> then Some OverflowError else None)\<rparr>"

text \<open>The same environment, with captions that are blank for every video.\<close>

definition blank_env :: pyenv where
  "blank_env = example_env\<lparr>get_transcript :=
     (\<lambda>vid langs. Inr [[''text'' \<mapsto> PyStr ''  ''], Map.empty, [''text'' \<mapsto> PyStr [TAB, LF]]])\<rparr>"

text \<open>The same environment, with captions that hold a carriage return.\<close>

definition cr_env :: pyenv where
  "cr_env = example_env\<lparr>get_transcript :=
     (\<lambda>vid langs. Inr [[''text'' \<mapsto> PyStr (''a'' @ [CR] @ ''b'')]])\<rparr>"

definition empty_world :: world where
  "empty_world = \<lparr>files = Map.empty, unwritable = {}, events = []\<rparr>"

text \<open>A store that holds a transcript for \<open>abc123\<close>.\<close>

definition cached_world :: world where
  "cached_world = empty_world\<lparr>files := [''data/transcripts/abc123.txt'' \<mapsto> Text ''cached text'']\<rparr>"

text \<open>An empty store in which the transcript of \<open>abc123\<close> cannot be written.\<close>

definition readonly_world :: world where
  "readonly_world = empty_world\<lparr>unwritable := {''data/transcripts/abc123.txt''}\<rparr>"

text \<open>An empty store in which the index file cannot be written.\<close>

definition no_index_world :: world where
  "no_index_world = empty_world\<lparr>unwritable := {''data/curated_index.json''}\<rparr>"

text \<open>
  An empty store on a file system whose names hold 255 bytes (the limit of the usual
  Linux file systems): a file of the transcript directory with a longer name cannot
  be looked up or written, and nothing stands at any other path. A character below
  128 is one byte in UTF-8, another one is two.
\<close>

definition utf8_length :: "string \<Rightarrow> nat" where
  "utf8_length s = length s + length (filter (\<lambda>c. \<not> is_ascii c) s)"

definition name_too_long :: "string \<Rightarrow> bool" where
  "name_too_long p =
     (take 17 p = ''data/transcripts/''
      \<and> CHR ''/'' \<notin> set (drop 17 p)
      \<and> 255 < utf8_length (drop 17 p))"

definition linux_world :: world where
  "linux_world =
     \<lparr>files = (\<lambda>p. if name_too_long p then Some NoStat else None),
      unwritable = {p. name_too_long p},
      events = []\<rparr>"

text \<open>An identifier of 252 characters; its file name has 256.\<close>

definition long_id :: string where
  "long_id = replicate 252 CHR ''a''"

text \<open>A state in which the index file holds an array of one element.\<close>

definition indexed_world :: world where
  "indexed_world = empty_world\<lparr>files := [''data/curated_index.json'' \<mapsto> Text ''[null]'']\<rparr>"

text \<open>A segment whose text is missing, empty or whitespace only.\<close>

definition blank_segment :: "segment \<Rightarrow> bool" where
  "blank_segment s =
     (case s ''text'' of
        None \<Rightarrow> True
      | Some (PyStr t) \<Rightarrow> list_all is_space t
      | Some PyOther \<Rightarrow> False)"

text \<open>
  The entries of a catalog in the order of its traversal: collections in the order
  of the mapping, the videos of a collection in the order of its list; each with its
  collection, its title (empty when it has none) and its url.
\<close>

definition video_title :: "(string \<rightharpoonup> string) \<Rightarrow> string" where
  "video_title v = (case v ''title'' of None \<Rightarrow> '''' | Some t \<Rightarrow> t)"

definition video_url :: "(string \<rightharpoonup> string) \<Rightarrow> string" where
  "video_url v = (case v ''url'' of None \<Rightarrow> '''' | Some u \<Rightarrow> u)"

definition catalog_entries ::
  "(string \<times> (string \<rightharpoonup> string) list) list \<Rightarrow> (string \<times> string \<times> string) list" where
  "catalog_entries curated_map =
     concat (map (\<lambda>(coll, videos). map (\<lambda>v. (coll, video_title v, video_url v)) videos)
                 curated_map)"

section \<open>Properties\<close>

subsection \<open>Strings\<close>

lemma str_in_iff: "str_in sub s \<longleftrightarrow> (\<exists>p q. s = p @ sub @ q)"
proof (induction s)
  case Nil
  then show ?case by auto
next
  case (Cons c cs)
  show ?case
  proof
    assume "str_in sub (c # cs)"
    then consider "prefix sub (c # cs)" | "str_in sub cs" by auto
    then show "\<exists>p q. c # cs = p @ sub @ q"
    proof cases
      case 1
      then obtain q where "c # cs = sub @ q" by (auto simp: prefix_def)
      then have "c # cs = [] @ sub @ q" by simp
      then show ?thesis by blast
    next
      case 2
      then obtain p q where "cs = p @ sub @ q" using Cons.IH by blast
      then have "c # cs = (c # p) @ sub @ q" by simp
      then show ?thesis by blast
    qed
  next
    assume "\<exists>p q. c # cs = p @ sub @ q"
    then obtain p q where pq: "c # cs = p @ sub @ q" by blast
    show "str_in sub (c # cs)"
    proof (cases p)
      case Nil
      then have "prefix sub (c # cs)" using pq by (auto simp: prefix_def)
      then show ?thesis by simp
    next
      case (Cons a p')
      then have "cs = p' @ sub @ q" using pq by simp
      then have "str_in sub cs" using Cons.IH by blast
      then show ?thesis by simp
    qed
  qed
qed

lemma str_in_append: "str_in sub s \<Longrightarrow> str_in sub (a @ s @ b)"
proof -
  assume "str_in sub s"
  then obtain p q where "s = p @ sub @ q" using str_in_iff by blast
  then have "a @ s @ b = (a @ p) @ sub @ (q @ b)" by simp
  then show ?thesis using str_in_iff by blast
qed

lemma before_split: "c \<notin> set a \<Longrightarrow> before c (a @ c # b) = a"
  unfolding before_def by (induction a) auto

lemma after_split: "c \<notin> set a \<Longrightarrow> after c (a @ c # b) = b"
  unfolding after_def by (induction a) auto

lemma before_append: "c \<notin> set a \<Longrightarrow> before c (a @ b) = a @ before c b"
  unfolding before_def by (induction a) auto

lemma before_notin: "c \<notin> set s \<Longrightarrow> before c s = s"
  unfolding before_def by (induction s) auto

lemma before_if: "(if c \<in> set s then before c s else s) = before c s"
  by (simp add: before_notin)

lemma split_on_not_Nil: "split_on c s \<noteq> []"
  by (induction s) (auto split: list.splits)

lemma split_on_notin: "c \<notin> set s \<Longrightarrow> split_on c s = [s]"
  by (induction s) auto

lemma split_on_append: "split_on c (a @ c # b) = split_on c a @ split_on c b"
  by (induction a) (auto simp: split_on_not_Nil split: list.splits)

lemma parse_qs_add_append:
  "parse_qs_add m (ps @ qs) = parse_qs_add (parse_qs_add m ps) qs"
  by (induction m ps rule: parse_qs_add.induct) auto

lemma parse_qs_add_first:
  "m k = Some (x # xs) \<Longrightarrow> \<exists>ys. parse_qs_add m ps k = Some (x # ys)"
proof (induction ps arbitrary: m xs)
  case Nil
  then show ?case by simp
next
  case (Cons p ps)
  obtain n v where p: "p = (n, v)" by (cases p)
  let ?m' = "case m n of Some vs \<Rightarrow> m(n \<mapsto> vs @ [v]) | None \<Rightarrow> m(n \<mapsto> [v])"
  have "\<exists>xs'. ?m' k = Some (x # xs')"
    using Cons.prems by (cases "n = k") (auto split: option.splits)
  then obtain xs' where "?m' k = Some (x # xs')" by blast
  then have "\<exists>ys. parse_qs_add ?m' ps k = Some (x # ys)" by (rule Cons.IH)
  then show ?case using p by simp
qed

lemma strip_chars_decomp:
  "\<exists>pre post. s = pre @ strip_chars chars s @ post
     \<and> set pre \<subseteq> set chars \<and> set post \<subseteq> set chars"
proof -
  let ?P = "\<lambda>c. c \<in> set chars"
  let ?m = "dropWhile ?P s"
  have 1: "s = takeWhile ?P s @ ?m" by simp
  have 2: "?m = rev (dropWhile ?P (rev ?m)) @ rev (takeWhile ?P (rev ?m))"
    by (metis rev_append rev_rev_ident takeWhile_dropWhile_id)
  have 3: "strip_chars chars s = rev (dropWhile ?P (rev ?m))"
    by (simp add: strip_chars_def lstrip_chars_def rstrip_chars_def)
  have 4: "s = takeWhile ?P s @ strip_chars chars s @ rev (takeWhile ?P (rev ?m))"
    using 1 2 3 by metis
  have 5: "set (takeWhile ?P s) \<subseteq> set chars"
    by (auto dest: set_takeWhileD)
  have 6: "set (rev (takeWhile ?P (rev ?m))) \<subseteq> set chars"
    by (auto dest: set_takeWhileD)
  show ?thesis using 4 5 6 by blast
qed

lemma strip_chars_ends:
  assumes "strip_chars chars s \<noteq> []"
  shows "hd (strip_chars chars s) \<notin> set chars \<and> last (strip_chars chars s) \<notin> set chars"
proof -
  let ?P = "\<lambda>c. c \<in> set chars"
  let ?m = "dropWhile ?P s"
  let ?r = "dropWhile ?P (rev ?m)"
  have s: "strip_chars chars s = rev ?r"
    by (simp add: strip_chars_def lstrip_chars_def rstrip_chars_def)
  then have r: "?r \<noteq> []" using assms by simp
  have m: "?m \<noteq> []"
    using r by (metis dropWhile.simps(1) rev.simps(1))
  have "last (rev ?r) = hd ?r" using r by (simp only: last_rev)
  moreover have "\<not> ?P (hd ?r)" using r by (rule hd_dropWhile)
  moreover have "hd (rev ?r) = last ?r" using r by (simp only: hd_rev)
  moreover have "last ?r = last (rev ?m)" using r by (metis last_appendR takeWhile_dropWhile_id)
  moreover have "last (rev ?m) = hd ?m" using m by (simp only: last_rev)
  moreover have "\<not> ?P (hd ?m)" using m by (rule hd_dropWhile)
  ultimately show ?thesis using s by simp
qed

lemma strip_chars_empty_iff: "strip_chars chars s = [] \<longleftrightarrow> set s \<subseteq> set chars"
proof
  assume "strip_chars chars s = []"
  then show "set s \<subseteq> set chars"
    using strip_chars_decomp[of s chars] by auto
next
  assume "set s \<subseteq> set chars"
  then have "dropWhile (\<lambda>c. c \<in> set chars) s = []" by auto
  then show "strip_chars chars s = []"
    unfolding strip_chars_def lstrip_chars_def rstrip_chars_def
    by (simp only: rev.simps dropWhile.simps)
qed

subsection \<open>Unfolding the definitions on concrete inputs\<close>

lemmas string_defs = strip_def strip_chars_def lstrip_chars_def rstrip_chars_def whitespace_def
  is_space_def before_def after_def TAB_def CR_def LF_def

lemmas url_defs = extract_video_id_def urlparse_def urlsplit_def split_scheme_def
  splitnetloc_def splitparams_def brackets_ok_def checknetloc_def is_ascii_def
  is_ascii_alpha_def ascii_lower_def ascii_upper_def scheme_chars_def lower_def lower_char_def
  uses_params_def parse_qs_def parse_qsl_def parse_field_def unquote_def unquote_plus_def
  is_c0_control_or_space_def

lemmas example_defs = example_env_def blank_env_def cr_env_def empty_world_def
  cached_world_def readonly_world_def no_index_world_def indexed_world_def linux_world_def

subsection \<open>The local store\<close>

lemma universal_newlines_no_CR: "CR \<notin> set s \<Longrightarrow> universal_newlines s = s"
  by (induction s rule: universal_newlines.induct) auto

lemma load_after_save:
  assumes "transcript_file vid \<notin> unwritable w"
      and "files w (transcript_file vid) \<noteq> Some NoRead"
  shows "load_local_transcript (snd (save_local_transcript w vid text)) vid
           = Inr (Some (universal_newlines text))"
  using assms
  by (auto simp: load_local_transcript_def save_local_transcript_def write_text_def
      read_text_def exists_def Let_def split: option.splits fs_entry.splits)

lemma load_absent: "files w (transcript_file vid) = None \<Longrightarrow> load_local_transcript w vid = Inr None"
  by (simp add: load_local_transcript_def exists_def)

lemma load_raises:
  "files w (transcript_file vid) = Some NoStat \<Longrightarrow> load_local_transcript w vid = Inl OSError"
  by (simp add: load_local_transcript_def exists_def)

lemma load_returns:
  "files w (transcript_file vid) \<noteq> Some NoStat \<Longrightarrow> \<exists>r. load_local_transcript w vid = Inr r"
  by (auto simp: load_local_transcript_def exists_def Let_def
      split: option.splits fs_entry.splits sum.splits)

lemma load_returned:
  "load_local_transcript w vid = Inr r \<Longrightarrow> files w (transcript_file vid) \<noteq> Some NoStat"
  by (auto simp: load_local_transcript_def exists_def Let_def)

lemma example_ids:
  "extract_video_id example_env ''abc123'' = Inr ''abc123''"
  "transcript_file ''abc123'' = ''data/transcripts/abc123.txt''"
  by (simp_all add: extract_video_id_def string_defs transcript_file_def path_parts_def)

text \<open>The long identifier: a bare identifier, whose file name is too long.\<close>

lemma strip_chars_id:
  assumes "s \<noteq> []" and "hd s \<notin> set chars" and "last s \<notin> set chars"
  shows "strip_chars chars s = s"
proof -
  have 1: "dropWhile (\<lambda>c. c \<in> set chars) s = s"
    using assms(1,2) by (cases s) auto
  have "rev s \<noteq> []" "hd (rev s) \<notin> set chars"
    using assms(1,3) by (simp_all add: hd_rev)
  then have 2: "dropWhile (\<lambda>c. c \<in> set chars) (rev s) = rev s"
    by (cases "rev s") auto
  show ?thesis
    unfolding strip_chars_def lstrip_chars_def rstrip_chars_def 1 2 by simp
qed

lemma long_id_extract: "extract_video_id env long_id = Inr long_id"
proof -
  have a: "set long_id = {CHR ''a''}" by (simp add: long_id_def)
  have "\<not> str_in sub long_id" if "CHR ''y'' \<in> set sub" for sub
  proof
    assume "str_in sub long_id"
    then obtain p q where "long_id = p @ sub @ q" using str_in_iff by blast
    then have "set long_id = set (p @ sub @ q)" by simp
    then have "set sub \<subseteq> set long_id" by auto
    then show False using that a by auto
  qed
  then have m: "\<not> str_in ''youtube.com'' long_id" "\<not> str_in ''youtu.be'' long_id" by simp_all
  have n: "long_id \<noteq> []" by (simp add: long_id_def)
  then have "hd long_id \<in> set long_id" "last long_id \<in> set long_id" by simp_all
  then have "hd long_id = CHR ''a''" "last long_id = CHR ''a''" using a by simp_all
  then have "hd long_id \<notin> set whitespace" "last long_id \<notin> set whitespace"
    by (simp_all add: whitespace_def)
  then have "strip long_id = long_id"
    unfolding strip_def using n by (intro strip_chars_id)
  then show ?thesis using m by (simp add: extract_video_id_def)
qed

lemma long_id_file: "transcript_file long_id = ''data/transcripts/'' @ long_id @ ''.txt''"
proof -
  have "CHR ''/'' \<notin> set (long_id @ ''.txt'')" by (simp add: long_id_def)
  then have "split_on CHR ''/'' (long_id @ ''.txt'') = [long_id @ ''.txt'']"
    by (rule split_on_notin)
  moreover have "take 1 (long_id @ ''.txt'') \<noteq> ''/''" by (simp add: long_id_def)
  ultimately show ?thesis
    by (simp add: transcript_file_def path_parts_def Let_def long_id_def)
qed

lemma long_id_too_long: "name_too_long (transcript_file long_id)"
proof -
  have "CHR ''/'' \<notin> set (long_id @ ''.txt'')" by (simp add: long_id_def)
  moreover have "255 < utf8_length (long_id @ ''.txt'')"
    by (simp add: utf8_length_def long_id_def)
  ultimately show ?thesis by (simp add: name_too_long_def long_id_file)
qed

lemma long_id_linux:
  "files linux_world (transcript_file long_id) = Some NoStat"
  by (simp add: linux_world_def long_id_too_long)

text \<open>
  C6. Saving a text for an identifier and then loading that identifier returns the
  text with every \<open>\r\n\<close> and every other \<open>\r\<close> turned into \<open>\n\<close>, provided the write
  succeeds and what stands at the path can be opened for reading; so the text comes
  back unchanged when it holds no carriage return.
\<close>

theorem save_then_load:
  assumes "transcript_file vid \<notin> unwritable w"
      and "files w (transcript_file vid) \<noteq> Some NoRead"
  shows "load_local_transcript (snd (save_local_transcript w vid text)) vid
           = Inr (Some (universal_newlines text))
         \<and> (CR \<notin> set text \<longrightarrow>
              load_local_transcript (snd (save_local_transcript w vid text)) vid
                = Inr (Some text))"
  using load_after_save[OF assms] universal_newlines_no_CR by simp

theorem save_then_load_witness:
  "transcript_file ''abc123'' \<notin> unwritable empty_world
   \<and> files empty_world (transcript_file ''abc123'') \<noteq> Some NoRead
   \<and> CR \<notin> set (''Hello'' @ [LF] @ ''world'')
   \<and> load_local_transcript
        (snd (save_local_transcript empty_world ''abc123'' (''Hello'' @ [LF] @ ''world'')))
        ''abc123''
      = Inr (Some (''Hello'' @ [LF] @ ''world''))"
proof -
  have 1: "transcript_file ''abc123'' \<notin> unwritable empty_world"
    by (simp add: empty_world_def)
  have 2: "files empty_world (transcript_file ''abc123'') \<noteq> Some NoRead"
    by (simp add: empty_world_def)
  have 3: "CR \<notin> set (''Hello'' @ [LF] @ ''world'')"
    by (simp add: CR_def LF_def)
  show ?thesis
    using 1 2 3 save_then_load[OF 1 2, of "''Hello'' @ [LF] @ ''world''"]
    by (simp add: CR_def LF_def)
qed

text \<open>
  The claim as it is written fails for a text with a carriage return: in the empty
  store, where nothing hinders the write, \<open>a\rb\<close> is saved and \<open>a\nb\<close> is loaded.
\<close>

theorem save_then_load_counterexample:
  "load_local_transcript
     (snd (save_local_transcript empty_world ''abc123'' (''a'' @ [CR] @ ''b''))) ''abc123''
     = Inr (Some (''a'' @ [LF] @ ''b''))
   \<and> load_local_transcript
     (snd (save_local_transcript empty_world ''abc123'' (''a'' @ [CR] @ ''b''))) ''abc123''
     \<noteq> Inr (Some (''a'' @ [CR] @ ''b''))"
  by (simp add: load_local_transcript_def save_local_transcript_def write_text_def read_text_def
      exists_def empty_world_def example_ids CR_def LF_def)

subsection \<open>The resolver\<close>

text \<open>
  C1. When the store holds a non-empty transcript for the canonical identifier of a
  video reference, the resolver returns that text with source \<open>local\<close> and
  \<open>saved_locally\<close> false, whatever the two flags are; the state it returns is the
  state it was given, so no fetch was made and nothing was written.
\<close>

theorem local_hit:
  assumes "extract_video_id env ref = Inr vid"
      and "load_local_transcript w vid = Inr (Some t)" and "t \<noteq> []"
  shows "get_or_create_transcript env w ref use_youtube_fallback save_downloaded languages
           = Inr ((Some t, \<lparr>video_id = vid, source = ''local'', saved_locally = False\<rparr>), w)"
  using assms by (cases t) (simp_all add: get_or_create_transcript_def)

theorem local_hit_witness:
  "extract_video_id example_env ''https://youtu.be/abc123'' = Inr ''abc123''
   \<and> load_local_transcript cached_world ''abc123'' = Inr (Some ''cached text'')
   \<and> get_or_create_transcript example_env cached_world ''https://youtu.be/abc123'' True True None
      = Inr ((Some ''cached text'',
              \<lparr>video_id = ''abc123'', source = ''local'', saved_locally = False\<rparr>),
             cached_world)"
proof -
  have 1: "extract_video_id example_env ''https://youtu.be/abc123'' = Inr ''abc123''"
    by (simp add: url_defs string_defs example_env_def)
  have 2: "load_local_transcript cached_world ''abc123'' = Inr (Some ''cached text'')"
    by (simp add: load_local_transcript_def exists_def read_text_def example_ids
        cached_world_def empty_world_def CR_def)
  have 3: "''cached text'' \<noteq> []" by simp
  show ?thesis
    using 1 2 local_hit[OF 1 2 3, of True True None] by simp
qed




subsection \<open>The remote fetcher\<close>

lemma fetch_world:
  "snd (fetch_youtube_transcript env w vid langs) = w\<lparr>events := events w @ [Fetch vid langs]\<rparr>"
  by (auto simp: fetch_youtube_transcript_def Let_def split: sum.splits option.splits)

lemma fetch_not_empty: "fst (fetch_youtube_transcript env w vid langs) \<noteq> Some []"
  by (auto simp: fetch_youtube_transcript_def Let_def split: sum.splits option.splits)

lemma strip_blank: "list_all is_space t \<Longrightarrow> strip t = []"
  unfolding strip_def using strip_chars_empty_iff[of whitespace t]
  by (auto simp: is_space_def list_all_iff)

lemma stripped_texts_blank:
  "list_all blank_segment segments \<Longrightarrow> stripped_texts segments = Some []"
proof (induction segments)
  case Nil
  then show ?case by simp
next
  case (Cons s segments)
  then have ih: "stripped_texts segments = Some []" by simp
  have b: "blank_segment s" using Cons.prems by simp
  show ?case
  proof (cases "s ''text''")
    case None
    then show ?thesis using ih by (simp add: strip_def strip_chars_def lstrip_chars_def rstrip_chars_def)
  next
    case (Some v)
    then obtain t where v: "v = PyStr t" and t: "list_all is_space t"
      using b by (cases v) (auto simp: blank_segment_def)
    then show ?thesis using Some ih strip_blank[OF t] by simp
  qed
qed

text \<open>
  C9. The fetcher never returns the empty string: its result is nothing or a
  non-empty string. When the caption library is used and every segment it returns
  has a missing, empty or whitespace-only text, the result is nothing.
\<close>

theorem fetch_never_empty:
  "fst (fetch_youtube_transcript env w vid languages) \<noteq> Some []
   \<and> (YT_AVAILABLE env
        \<and> get_transcript env vid (case languages of None \<Rightarrow> [''en'', ''en-US''] | Some ls \<Rightarrow> ls)
            = Inr segments
        \<and> list_all blank_segment segments
       \<longrightarrow> fst (fetch_youtube_transcript env w vid languages) = None)"
  using fetch_not_empty[of env w vid languages] stripped_texts_blank[of segments]
  by (auto simp: fetch_youtube_transcript_def Let_def)

theorem fetch_never_empty_witness:
  "YT_AVAILABLE blank_env
   \<and> get_transcript blank_env ''abc123'' [''en'', ''en-US'']
       = Inr [[''text'' \<mapsto> PyStr ''  ''], Map.empty, [''text'' \<mapsto> PyStr [TAB, LF]]]
   \<and> list_all blank_segment [[''text'' \<mapsto> PyStr ''  ''], Map.empty, [''text'' \<mapsto> PyStr [TAB, LF]]]
   \<and> fst (fetch_youtube_transcript blank_env empty_world ''abc123'' None) = None
   \<and> fst (fetch_youtube_transcript blank_env empty_world ''abc123'' None) \<noteq> Some []"
proof -
  let ?segs = "[[''text'' \<mapsto> PyStr ''  ''], Map.empty, [''text'' \<mapsto> PyStr [TAB, LF]]] :: segment list"
  have 1: "YT_AVAILABLE blank_env" by (simp add: example_defs)
  have 2: "get_transcript blank_env ''abc123''
             (case None of None \<Rightarrow> [''en'', ''en-US''] | Some ls \<Rightarrow> ls) = Inr ?segs"
    by (simp add: example_defs)
  have 3: "list_all blank_segment ?segs"
    by (simp add: blank_segment_def string_defs)
  show ?thesis
    using 1 2 3 fetch_never_empty[of blank_env empty_world "''abc123''" None ?segs]
    by simp
qed

subsection \<open>The resolver, continued\<close>

lemma resolver_remote:
  assumes "extract_video_id env ref = Inr vid"
      and "load_local_transcript w vid = Inr None \<or> load_local_transcript w vid = Inr (Some [])"
      and "fst (fetch_youtube_transcript env w vid langs) = Some yt"
  shows "get_or_create_transcript env w ref True sd langs
           = Inr ((Some yt, \<lparr>video_id = vid, source = ''youtube'', saved_locally = sd\<rparr>),
                  (if sd then snd (save_local_transcript
                                     (snd (fetch_youtube_transcript env w vid langs)) vid yt)
                   else snd (fetch_youtube_transcript env w vid langs)))"
proof -
  obtain c cs where yt: "yt = c # cs"
    using assms(3) fetch_not_empty[of env w vid langs] by (cases yt) auto
  obtain w1 where f: "fetch_youtube_transcript env w vid langs = (Some (c # cs), w1)"
    using assms(3) yt by (cases "fetch_youtube_transcript env w vid langs") auto
  show ?thesis
    using assms(1,2) f yt
    by (auto simp: get_or_create_transcript_def Let_def split: prod.splits)
qed

lemma resolver_raises:
  assumes "extract_video_id env ref = Inr vid"
      and "files w (transcript_file vid) = Some NoStat"
  shows "get_or_create_transcript env w ref ufb sd langs = Inl OSError"
  using assms by (simp add: get_or_create_transcript_def load_raises)

lemma resolver_total:
  assumes "extract_video_id env ref = Inr vid"
      and "files w (transcript_file vid) \<noteq> Some NoStat"
  shows "\<exists>t m w'. get_or_create_transcript env w ref ufb sd langs = Inr ((t, m), w')
           \<and> video_id m = vid
           \<and> unwritable w' = unwritable w
           \<and> (\<forall>p. files w p \<noteq> Some NoRead \<longrightarrow> files w' p \<noteq> Some NoRead)
           \<and> (\<forall>p. files w p \<noteq> Some NoStat \<longrightarrow> files w' p \<noteq> Some NoStat)"
proof -
  obtain r where f: "fetch_youtube_transcript env w vid langs
                       = (r, w\<lparr>events := events w @ [Fetch vid langs]\<rparr>)"
    using fetch_world[of env w vid langs] by (metis prod.collapse)
  obtain l where l: "load_local_transcript w vid = Inr l"
    using load_returns[OF assms(2)] by blast
  show ?thesis
    using assms(1) f l
    by (auto simp: get_or_create_transcript_def Let_def save_local_transcript_def write_text_def
        split: option.splits list.splits fs_entry.splits)
qed

lemma resolver_saved_locally:
  assumes "get_or_create_transcript env w ref ufb sd langs = Inr ((t, m), w')"
  shows "(saved_locally m \<longleftrightarrow> source m = ''youtube'' \<and> sd)
         \<and> (source m = ''youtube'' \<and> sd \<and> transcript_file (video_id m) \<in> unwritable w
              \<longrightarrow> files w' = files w)"
proof -
  obtain vid where v: "extract_video_id env ref = Inr vid"
    using assms by (cases "extract_video_id env ref") (auto simp: get_or_create_transcript_def)
  obtain l where l: "load_local_transcript w vid = Inr l"
    using assms v
    by (cases "load_local_transcript w vid") (auto simp: get_or_create_transcript_def)
  obtain r where f: "fetch_youtube_transcript env w vid langs
                       = (r, w\<lparr>events := events w @ [Fetch vid langs]\<rparr>)"
    using fetch_world[of env w vid langs] by (metis prod.collapse)
  show ?thesis
    using assms v l f
    by (auto simp: get_or_create_transcript_def Let_def save_local_transcript_def write_text_def
        split: option.splits list.splits if_splits)
qed

lemma example_fetch:
  "fetch_youtube_transcript example_env w ''abc123'' None
     = (Some (''Hello'' @ [LF] @ ''world''), w\<lparr>events := events w @ [Fetch ''abc123'' None]\<rparr>)"
  by (simp add: fetch_youtube_transcript_def example_env_def string_defs)

lemma cr_fetch:
  "fetch_youtube_transcript cr_env w vid None
     = (Some (''a'' @ [CR] @ ''b''), w\<lparr>events := events w @ [Fetch vid None]\<rparr>)"
  by (simp add: fetch_youtube_transcript_def cr_env_def example_env_def string_defs)

text \<open>
  C2. When the store can be asked about the identifier and holds no non-empty
  transcript for it, both flags are enabled and the fetcher returns a text, the
  resolver returns exactly that text with source \<open>youtube\<close> and \<open>saved_locally\<close> true.
  Provided the write succeeds and what stands at the path can be opened for reading,
  a later load of the identifier returns that text with every \<open>\r\n\<close> and every other
  \<open>\r\<close> turned into \<open>\n\<close>, hence the same text when it holds no carriage return.
\<close>

theorem remote_fallback_saved:
  assumes "extract_video_id env ref = Inr vid"
      and "load_local_transcript w vid = Inr None \<or> load_local_transcript w vid = Inr (Some [])"
      and "fst (fetch_youtube_transcript env w vid languages) = Some yt"
  shows "\<exists>w'. get_or_create_transcript env w ref True True languages
             = Inr ((Some yt, \<lparr>video_id = vid, source = ''youtube'', saved_locally = True\<rparr>), w')
           \<and> (transcript_file vid \<notin> unwritable w \<and> files w (transcript_file vid) \<noteq> Some NoRead
                \<longrightarrow> load_local_transcript w' vid = Inr (Some (universal_newlines yt))
                    \<and> (CR \<notin> set yt \<longrightarrow> load_local_transcript w' vid = Inr (Some yt)))"
proof -
  let ?w1 = "snd (fetch_youtube_transcript env w vid languages)"
  let ?w2 = "snd (save_local_transcript ?w1 vid yt)"
  have r: "get_or_create_transcript env w ref True True languages
             = Inr ((Some yt, \<lparr>video_id = vid, source = ''youtube'', saved_locally = True\<rparr>), ?w2)"
    using resolver_remote[OF assms, of True] by simp
  have "load_local_transcript ?w2 vid = Inr (Some (universal_newlines yt))"
    if "transcript_file vid \<notin> unwritable w" "files w (transcript_file vid) \<noteq> Some NoRead"
    using that by (intro load_after_save) (simp_all add: fetch_world)
  then show ?thesis
    using r universal_newlines_no_CR[of yt] by auto
qed

theorem remote_fallback_saved_witness:
  "extract_video_id example_env ''abc123'' = Inr ''abc123''
   \<and> load_local_transcript empty_world ''abc123'' = Inr None
   \<and> fst (fetch_youtube_transcript example_env empty_world ''abc123'' None)
       = Some (''Hello'' @ [LF] @ ''world'')
   \<and> transcript_file ''abc123'' \<notin> unwritable empty_world
   \<and> files empty_world (transcript_file ''abc123'') \<noteq> Some NoRead
   \<and> CR \<notin> set (''Hello'' @ [LF] @ ''world'')
   \<and> (\<exists>w'. get_or_create_transcript example_env empty_world ''abc123'' True True None
             = Inr ((Some (''Hello'' @ [LF] @ ''world''),
                     \<lparr>video_id = ''abc123'', source = ''youtube'', saved_locally = True\<rparr>), w')
           \<and> load_local_transcript w' ''abc123'' = Inr (Some (''Hello'' @ [LF] @ ''world'')))"
proof -
  have 1: "extract_video_id example_env ''abc123'' = Inr ''abc123''"
    by (rule example_ids)
  have 2: "load_local_transcript empty_world ''abc123'' = Inr None"
    by (simp add: load_local_transcript_def exists_def empty_world_def)
  have 3: "fst (fetch_youtube_transcript example_env empty_world ''abc123'' None)
             = Some (''Hello'' @ [LF] @ ''world'')"
    by (simp add: example_fetch)
  have 4: "transcript_file ''abc123'' \<notin> unwritable empty_world"
    by (simp add: empty_world_def)
  have 5: "files empty_world (transcript_file ''abc123'') \<noteq> Some NoRead"
    by (simp add: empty_world_def)
  have 6: "CR \<notin> set (''Hello'' @ [LF] @ ''world'')"
    by (simp add: CR_def LF_def)
  show ?thesis
    using 1 2 3 4 5 6 remote_fallback_saved[OF 1 disjI1[OF 2] 3] by blast
qed

text \<open>
  The claim as it is written fails when the write fails: the resolver returns the
  remote text with source \<open>youtube\<close>, and the later load returns nothing. It fails
  also, with a write that succeeds, for a remote text with a carriage return: \<open>a\rb\<close>
  is returned and saved, and \<open>a\nb\<close> is loaded. And it fails for an identifier whose
  file name the file system finds too long: nothing is stored for the identifier of
  252 characters and the fetcher has a text for it, but the resolver raises the
  \<open>OSError\<close> of \<open>path.exists()\<close> and returns nothing.
\<close>

theorem remote_fallback_counterexample:
  "load_local_transcript readonly_world ''abc123'' = Inr None
   \<and> fst (fetch_youtube_transcript example_env readonly_world ''abc123'' None)
       = Some (''Hello'' @ [LF] @ ''world'')
   \<and> get_or_create_transcript example_env readonly_world ''abc123'' True True None
       = Inr ((Some (''Hello'' @ [LF] @ ''world''),
               \<lparr>video_id = ''abc123'', source = ''youtube'', saved_locally = True\<rparr>),
              readonly_world\<lparr>events := [Fetch ''abc123'' None]\<rparr>)
   \<and> load_local_transcript (readonly_world\<lparr>events := [Fetch ''abc123'' None]\<rparr>) ''abc123''
       = Inr None
   \<and> get_or_create_transcript cr_env empty_world ''abc123'' True True None
       = Inr ((Some (''a'' @ [CR] @ ''b''),
               \<lparr>video_id = ''abc123'', source = ''youtube'', saved_locally = True\<rparr>),
              \<lparr>files = [''data/transcripts/abc123.txt'' \<mapsto> Text (''a'' @ [CR] @ ''b'')],
               unwritable = {}, events = [Fetch ''abc123'' None]\<rparr>)
   \<and> load_local_transcript
         \<lparr>files = [''data/transcripts/abc123.txt'' \<mapsto> Text (''a'' @ [CR] @ ''b'')],
          unwritable = {}, events = [Fetch ''abc123'' None]\<rparr> ''abc123''
       = Inr (Some (''a'' @ [LF] @ ''b''))
   \<and> files linux_world (transcript_file long_id) = Some NoStat
   \<and> fst (fetch_youtube_transcript cr_env linux_world long_id None) = Some (''a'' @ [CR] @ ''b'')
   \<and> get_or_create_transcript cr_env linux_world long_id True True None = Inl OSError"
proof -
  have 1: "extract_video_id cr_env ''abc123'' = Inr ''abc123''"
    by (simp add: extract_video_id_def string_defs)
  have a: "load_local_transcript readonly_world ''abc123'' = Inr None"
    by (simp add: load_local_transcript_def exists_def readonly_world_def empty_world_def)
  have b: "fst (fetch_youtube_transcript example_env readonly_world ''abc123'' None)
             = Some (''Hello'' @ [LF] @ ''world'')"
    by (simp add: example_fetch)
  have c: "get_or_create_transcript example_env readonly_world ''abc123'' True True None
             = Inr ((Some (''Hello'' @ [LF] @ ''world''),
                     \<lparr>video_id = ''abc123'', source = ''youtube'', saved_locally = True\<rparr>),
                    readonly_world\<lparr>events := [Fetch ''abc123'' None]\<rparr>)"
    by (simp add: get_or_create_transcript_def example_ids example_fetch
        load_local_transcript_def save_local_transcript_def write_text_def exists_def
        readonly_world_def empty_world_def Let_def)
  have d: "load_local_transcript (readonly_world\<lparr>events := [Fetch ''abc123'' None]\<rparr>) ''abc123''
             = Inr None"
    by (simp add: load_local_transcript_def exists_def readonly_world_def empty_world_def)
  have e: "get_or_create_transcript cr_env empty_world ''abc123'' True True None
             = Inr ((Some (''a'' @ [CR] @ ''b''),
                     \<lparr>video_id = ''abc123'', source = ''youtube'', saved_locally = True\<rparr>),
                    \<lparr>files = [''data/transcripts/abc123.txt'' \<mapsto> Text (''a'' @ [CR] @ ''b'')],
                     unwritable = {}, events = [Fetch ''abc123'' None]\<rparr>)"
    by (simp add: get_or_create_transcript_def example_ids cr_fetch 1
        load_local_transcript_def save_local_transcript_def write_text_def exists_def
        empty_world_def Let_def)
  have f: "load_local_transcript
             \<lparr>files = [''data/transcripts/abc123.txt'' \<mapsto> Text (''a'' @ [CR] @ ''b'')],
              unwritable = {}, events = [Fetch ''abc123'' None]\<rparr> ''abc123''
           = Inr (Some (''a'' @ [LF] @ ''b''))"
    by (simp add: load_local_transcript_def read_text_def exists_def example_ids CR_def LF_def)
  have g: "fst (fetch_youtube_transcript cr_env linux_world long_id None)
             = Some (''a'' @ [CR] @ ''b'')"
    by (simp add: cr_fetch)
  have h: "get_or_create_transcript cr_env linux_world long_id True True None = Inl OSError"
    using long_id_extract long_id_linux by (rule resolver_raises)
  show ?thesis
    by (intro conjI a b c d e f g h long_id_linux)
qed

text \<open>
  C10. In every result of the resolver, \<open>saved_locally\<close> is true exactly when the
  source is \<open>youtube\<close> and \<open>save_downloaded\<close> was enabled. It is true also when the
  write failed: then the files are as they were before the call.
\<close>

theorem saved_locally_records_attempt:
  assumes "get_or_create_transcript env w ref use_youtube_fallback save_downloaded languages
             = Inr ((t, m), w')"
  shows "(saved_locally m \<longleftrightarrow> source m = ''youtube'' \<and> save_downloaded)
         \<and> (source m = ''youtube'' \<and> save_downloaded
              \<and> transcript_file (video_id m) \<in> unwritable w
             \<longrightarrow> saved_locally m \<and> files w' = files w)"
  using resolver_saved_locally[OF assms] by blast

theorem saved_locally_records_attempt_witness:
  "get_or_create_transcript example_env readonly_world ''abc123'' True True None
     = Inr ((Some (''Hello'' @ [LF] @ ''world''),
             \<lparr>video_id = ''abc123'', source = ''youtube'', saved_locally = True\<rparr>),
            readonly_world\<lparr>events := [Fetch ''abc123'' None]\<rparr>)
   \<and> transcript_file ''abc123'' \<in> unwritable readonly_world
   \<and> files (readonly_world\<lparr>events := [Fetch ''abc123'' None]\<rparr>) = files readonly_world
   \<and> load_local_transcript (readonly_world\<lparr>events := [Fetch ''abc123'' None]\<rparr>) ''abc123''
       = Inr None"
proof -
  let ?m = "\<lparr>video_id = ''abc123'', source = ''youtube'', saved_locally = True\<rparr>"
  let ?w' = "readonly_world\<lparr>events := [Fetch ''abc123'' None]\<rparr>"
  have 1: "get_or_create_transcript example_env readonly_world ''abc123'' True True None
             = Inr ((Some (''Hello'' @ [LF] @ ''world''), ?m), ?w')"
    by (simp add: get_or_create_transcript_def example_ids example_fetch
        load_local_transcript_def save_local_transcript_def write_text_def exists_def
        readonly_world_def empty_world_def Let_def)
  have 2: "transcript_file ''abc123'' \<in> unwritable readonly_world"
    by (simp add: example_ids readonly_world_def)
  have 3: "load_local_transcript ?w' ''abc123'' = Inr None"
    by (simp add: load_local_transcript_def exists_def readonly_world_def empty_world_def)
  have "files ?w' = files readonly_world"
    using 2 saved_locally_records_attempt[OF 1] by simp
  then show ?thesis using 1 2 3 by simp
qed

subsection \<open>The identifier extractor\<close>

lemma strip_decomp:
  "\<exists>pre post. s = pre @ strip s @ post \<and> list_all is_space pre \<and> list_all is_space post"
  using strip_chars_decomp[of s whitespace]
  by (auto simp: strip_def is_space_def list_all_iff)

lemma strip_ends:
  "strip s \<noteq> [] \<Longrightarrow> \<not> is_space (hd (strip s)) \<and> \<not> is_space (last (strip s))"
  using strip_chars_ends[of whitespace s] by (simp add: strip_def is_space_def)

text \<open>
  C4. For an input that contains neither \<open>youtube.com\<close> nor \<open>youtu.be\<close>, the extractor
  returns the input without its leading and trailing whitespace: what it removes on
  either side is whitespace only, and what it returns neither starts nor ends with
  whitespace.
\<close>

theorem bare_identifier:
  assumes "\<not> str_in ''youtube.com'' s" and "\<not> str_in ''youtu.be'' s"
  shows "extract_video_id env s = Inr (strip s)
         \<and> (\<exists>pre post. s = pre @ strip s @ post
               \<and> list_all is_space pre \<and> list_all is_space post)
         \<and> (strip s = [] \<or> (\<not> is_space (hd (strip s)) \<and> \<not> is_space (last (strip s))))"
  using assms strip_decomp[of s] strip_ends[of s]
  by (auto simp: extract_video_id_def)

theorem bare_identifier_witness:
  "\<not> str_in ''youtube.com'' ('' abc 123  '' @ [LF])
   \<and> \<not> str_in ''youtu.be'' ('' abc 123  '' @ [LF])
   \<and> extract_video_id example_env ('' abc 123  '' @ [LF]) = Inr ''abc 123''"
proof -
  let ?s = "'' abc 123  '' @ [LF]"
  have 1: "\<not> str_in ''youtube.com'' ?s" by (simp add: LF_def)
  have 2: "\<not> str_in ''youtu.be'' ?s" by (simp add: LF_def)
  have 3: "strip ?s = ''abc 123''" by (simp add: string_defs)
  show ?thesis
    using 1 2 3 bare_identifier[OF 1 2, of example_env] by simp
qed

lemma alpha_not_c0: "is_ascii_alpha c \<Longrightarrow> \<not> is_c0_control_or_space c"
proof -
  have "list_all (\<lambda>c. \<not> is_c0_control_or_space c) (ascii_lower @ ascii_upper)"
    by (simp add: ascii_lower_def ascii_upper_def is_c0_control_or_space_def)
  then show "is_ascii_alpha c \<Longrightarrow> \<not> is_c0_control_or_space c"
    unfolding is_ascii_alpha_def list_all_iff by blast
qed

lemma split_scheme_url:
  assumes "sch \<noteq> []" and "is_ascii_alpha (hd sch)"
      and "list_all (\<lambda>c. c \<in> set scheme_chars) sch"
  shows "split_scheme (sch @ ''://'' @ r) = (lower sch, ''//'' @ r)"
proof -
  define u where "u = sch @ ''://'' @ r"
  have "CHR '':'' \<notin> set scheme_chars" by (simp add: scheme_chars_def)
  then have c: "CHR '':'' \<notin> set sch"
    using assms(3) unfolding list_all_iff by blast
  have b: "before CHR '':'' u = sch"
    using before_split[OF c, of "''//'' @ r"] by (simp add: u_def)
  have a: "after CHR '':'' u = ''//'' @ r"
    using after_split[OF c, of "''//'' @ r"] by (simp add: u_def)
  have m: "CHR '':'' \<in> set u" by (simp add: u_def)
  have h: "(case sch of [] \<Rightarrow> False | c # x \<Rightarrow> is_ascii_alpha c)"
    using assms(1,2) by (cases sch) auto
  have "split_scheme u = (lower sch, ''//'' @ r)"
    using assms(3) h by (simp add: split_scheme_def Let_def b a m)
  then show ?thesis by (simp add: u_def)
qed

lemma splitnetloc_url:
  assumes "set host \<inter> set ''/?#'' = {}"
      and "t \<noteq> []" and "hd t \<in> set ''/?#''"
  shows "splitnetloc (''//'' @ host @ t) = (host, t)"
proof -
  obtain x xs where t: "t = x # xs" using assms(2) by (cases t) auto
  have x: "x \<in> set ''/?#''" using assms(3) t by simp
  have h: "\<And>c. c \<in> set host \<Longrightarrow> c \<notin> set ''/?#''" using assms(1) by auto
  have 1: "takeWhile (\<lambda>c. c \<notin> set ''/?#'') (host @ x # xs) = host"
    using h x by (induction host) auto
  have 2: "dropWhile (\<lambda>c. c \<notin> set ''/?#'') (host @ x # xs) = x # xs"
    using h x by (induction host) auto
  show ?thesis using 1 2 t by (simp add: splitnetloc_def)
qed

lemma urlsplit_url:
  assumes "sch \<noteq> []" and "is_ascii_alpha (hd sch)"
      and "list_all (\<lambda>c. c \<in> set scheme_chars) sch"
      and "set host \<inter> set ''/?#[]'' = {}" and "list_all is_ascii host"
      and "pth = [] \<or> hd pth = CHR ''/''" and "set pth \<inter> set ''?#'' = {}"
      and "set (sch @ ''://'' @ host @ pth @ ''?'' @ t) \<inter> set [TAB, CR, LF] = {}"
  shows "\<exists>r. urlsplit env (sch @ ''://'' @ host @ pth @ ''?'' @ t) = Inr r
           \<and> netloc r = host \<and> query r = before CHR ''#'' t"
proof -
  define u3 where "u3 = pth @ ''?'' @ t"
  define u2 where "u2 = ''//'' @ host @ u3"
  define u where "u = sch @ '':'' @ u2"
  have u: "u = sch @ ''://'' @ host @ pth @ ''?'' @ t"
    by (simp add: u_def u2_def u3_def)
  obtain c cs where sch: "sch = c # cs" using assms(1) by (cases sch) auto
  have "\<not> is_c0_control_or_space c" using assms(2) sch alpha_not_c0 by simp
  then have 1: "dropWhile is_c0_control_or_space u = u" using sch by (simp add: u_def)
  have 2: "filter (\<lambda>c. c \<notin> set [TAB, CR, LF]) u = u"
    using assms(8) unfolding u by (intro filter_True) blast
  have 3: "split_scheme u = (lower sch, u2)"
    using split_scheme_url[OF assms(1,2,3), of "host @ u3"] by (simp add: u_def u2_def)
  have 4: "take 2 u2 = ''//''" by (simp add: u2_def)
  have 5: "splitnetloc u2 = (host, u3)"
    unfolding u2_def
  proof (rule splitnetloc_url)
    show "set host \<inter> set ''/?#'' = {}" using assms(4) by auto
    show "u3 \<noteq> []" by (simp add: u3_def)
    show "hd u3 \<in> set ''/?#''" using assms(6) by (cases pth) (auto simp: u3_def)
  qed
  have 6: "brackets_ok env host" using assms(4) by (auto simp: brackets_ok_def)
  have 7: "checknetloc env host" using assms(5) by (simp add: checknetloc_def)
  have p: "CHR ''#'' \<notin> set pth" "CHR ''?'' \<notin> set pth" using assms(7) by auto
  define u4 where "u4 = pth @ ''?'' @ before CHR ''#'' t"
  have "before CHR ''#'' u3 = u4"
    using before_append[of "CHR ''#''" "pth @ ''?''" t] p by (simp add: u3_def u4_def)
  then have 8: "(if CHR ''#'' \<in> set u3 then before CHR ''#'' u3 else u3) = u4"
    using before_if[of "CHR ''#''" u3] by simp
  have 9: "CHR ''?'' \<in> set u4" by (simp add: u4_def)
  have 10: "before CHR ''?'' u4 = pth"
    using before_split[OF p(2)] by (simp add: u4_def)
  have 11: "after CHR ''?'' u4 = before CHR ''#'' t"
    using after_split[OF p(2)] by (simp add: u4_def)
  have "\<exists>r. urlsplit env u = Inr r \<and> netloc r = host \<and> query r = before CHR ''#'' t"
  proof (cases "CHR ''#'' \<in> set u3")
    case True
    then have "before CHR ''#'' u3 = u4" using 8 by simp
    then show ?thesis
      using True 1 2 3 4 5 6 7 9 10 11 by (simp add: urlsplit_def Let_def)
  next
    case False
    then have "u3 = u4" using 8 by simp
    then show ?thesis
      using False 1 2 3 4 5 6 7 9 10 11 by (simp add: urlsplit_def Let_def)
  qed
  then show ?thesis unfolding u .
qed

lemma urlparse_fields:
  "urlsplit env u = Inr r \<Longrightarrow>
     \<exists>p. urlparse env u = Inr p \<and> netloc p = netloc r \<and> query p = query r"
  by (simp add: urlparse_def Let_def split: prod.splits)

lemma parse_field_v:
  assumes "X \<noteq> []" and "set X \<inter> set ''&+%'' = {}"
  shows "parse_field env (''v='' @ X) = [(''v'', X)]"
proof -
  define f where "f = ''v='' @ X"
  have b: "before CHR ''='' f = ''v''"
    using before_split[of "CHR ''=''" "''v''" X] by (simp add: f_def)
  have a: "after CHR ''='' f = X"
    using after_split[of "CHR ''=''" "''v''" X] by (simp add: f_def)
  have "map (\<lambda>c. if c = CHR ''+'' then CHR '' '' else c) X = X"
    using assms(2) by (intro map_idI) auto
  then have x: "unquote_plus env X = X"
    using assms(2) by (simp add: unquote_plus_def unquote_def)
  have v: "unquote_plus env ''v'' = ''v''"
    by (simp add: unquote_plus_def unquote_def)
  have "f \<noteq> []" by (simp add: f_def)
  then have "parse_field env f = [(''v'', X)]"
    using assms(1) by (simp add: parse_field_def Let_def b a x v)
  then show ?thesis by (simp add: f_def)
qed

lemma parse_qsl_ends_amp:
  "parse_qsl env (a @ ''&'') = concat (map (parse_field env) (split_on CHR ''&'' a))"
proof -
  have "split_on CHR ''&'' (a @ ''&'') = split_on CHR ''&'' a @ [[]]"
    using split_on_append[of "CHR ''&''" a "[]"] by simp
  then show ?thesis by (simp add: parse_qsl_def parse_field_def)
qed

lemma parse_qsl_v:
  assumes "q1 = [] \<or> last q1 = CHR ''&''"
      and "X \<noteq> []" and "set X \<inter> set ''&+%'' = {}"
      and "r = [] \<or> hd r = CHR ''&''"
  shows "\<exists>ps. parse_qsl env (q1 @ ''v='' @ X @ r) = parse_qsl env q1 @ (''v'', X) # ps"
proof -
  define f where "f = ''v='' @ X"
  have pf: "parse_field env f = [(''v'', X)]"
    unfolding f_def using assms(2,3) by (rule parse_field_v)
  have nf: "CHR ''&'' \<notin> set f" using assms(3) by (auto simp: f_def)
  have "\<exists>F. split_on CHR ''&'' (f @ r) = f # F"
  proof (cases r)
    case Nil
    then show ?thesis using split_on_notin[OF nf] by simp
  next
    case (Cons x r')
    then have "r = CHR ''&'' # r'" using assms(4) by simp
    then show ?thesis
      using split_on_append[of "CHR ''&''" f r'] split_on_notin[OF nf] by simp
  qed
  then obtain F where F: "split_on CHR ''&'' (f @ r) = f # F" by blast
  have ne: "f @ r \<noteq> []" by (simp add: f_def)
  have tail: "parse_qsl env (f @ r) = (''v'', X) # concat (map (parse_field env) F)"
    using ne F pf by (simp add: parse_qsl_def)
  have "\<exists>ps. parse_qsl env (q1 @ f @ r) = parse_qsl env q1 @ (''v'', X) # ps"
  proof (cases "q1 = []")
    case True
    then show ?thesis using tail by (simp add: parse_qsl_def)
  next
    case False
    then have "q1 = butlast q1 @ ''&''"
      using assms(1) by (metis append_butlast_last_id)
    then obtain a where a: "q1 = a @ ''&''" by blast
    have "split_on CHR ''&'' (a @ CHR ''&'' # (f @ r)) = split_on CHR ''&'' a @ f # F"
      using split_on_append[of "CHR ''&''" a "f @ r"] F by simp
    then have "parse_qsl env (a @ ''&'' @ f @ r)
                 = concat (map (parse_field env) (split_on CHR ''&'' a))
                   @ (''v'', X) # concat (map (parse_field env) F)"
      using pf by (simp add: parse_qsl_def)
    then show ?thesis using a parse_qsl_ends_amp[of env a] by simp
  qed
  then show ?thesis by (simp add: f_def)
qed

lemma parse_qs_v:
  assumes "q1 = [] \<or> last q1 = CHR ''&''"
      and "parse_qs env q1 ''v'' = None"
      and "X \<noteq> []" and "set X \<inter> set ''&+%'' = {}"
      and "r = [] \<or> hd r = CHR ''&''"
  shows "\<exists>ys. parse_qs env (q1 @ ''v='' @ X @ r) ''v'' = Some (X # ys)"
proof -
  obtain ps where ps: "parse_qsl env (q1 @ ''v='' @ X @ r) = parse_qsl env q1 @ (''v'', X) # ps"
    using parse_qsl_v[OF assms(1,3,4,5)] by blast
  let ?m = "parse_qs_add Map.empty (parse_qsl env q1)"
  have n: "?m ''v'' = None" using assms(2) by (simp add: parse_qs_def)
  have "parse_qs env (q1 @ ''v='' @ X @ r) = parse_qs_add (?m(''v'' \<mapsto> [X])) ps"
    using ps n by (simp add: parse_qs_def parse_qs_add_append)
  moreover have "\<exists>ys. parse_qs_add (?m(''v'' \<mapsto> [X])) ps ''v'' = Some (X # ys)"
    by (rule parse_qs_add_first) simp
  ultimately show ?thesis by simp
qed

text \<open>
  C5. For a URL \<open>scheme://host path ? ... v=X ...\<close> whose host contains \<open>youtube.com\<close>,
  where \<open>v=X\<close> is the first \<open>v\<close> parameter of the query with a value, \<open>X\<close> is not empty
  and holds none of \<open>&\<close>, \<open>#\<close>, \<open>+\<close>, \<open>%\<close>, and the URL holds no tab, carriage return
  or line feed, the extractor returns exactly \<open>X\<close>.
\<close>

theorem standard_url_v:
  assumes "sch \<noteq> []" and "is_ascii_alpha (hd sch)"
      and "list_all (\<lambda>c. c \<in> set scheme_chars) sch"
      and "str_in ''youtube.com'' host"
      and "set host \<inter> set ''/?#[]'' = {}" and "list_all is_ascii host"
      and "pth = [] \<or> hd pth = CHR ''/''" and "set pth \<inter> set ''?#'' = {}"
      and "q1 = [] \<or> last q1 = CHR ''&''" and "CHR ''#'' \<notin> set q1"
      and "parse_qs env q1 ''v'' = None"
      and "X \<noteq> []" and "set X \<inter> set ''&#+%'' = {}"
      and "rest = [] \<or> hd rest = CHR ''&'' \<or> hd rest = CHR ''#''"
      and "set (sch @ ''://'' @ host @ pth @ ''?'' @ q1 @ ''v='' @ X @ rest)
             \<inter> set [TAB, CR, LF] = {}"
  shows "extract_video_id env (sch @ ''://'' @ host @ pth @ ''?'' @ q1 @ ''v='' @ X @ rest)
           = Inr X"
proof -
  define t where "t = q1 @ ''v='' @ X @ rest"
  define u where "u = sch @ ''://'' @ host @ pth @ ''?'' @ t"
  define r where "r = before CHR ''#'' rest"
  have r: "r = [] \<or> hd r = CHR ''&''"
    using assms(14) by (cases rest) (auto simp: r_def before_def)
  have "CHR ''#'' \<notin> set (q1 @ ''v='' @ X)" using assms(10,13) by auto
  then have bt: "before CHR ''#'' t = q1 @ ''v='' @ X @ r"
    using before_append[of "CHR ''#''" "q1 @ ''v='' @ X" rest] by (simp add: t_def r_def)
  have clean: "set (sch @ ''://'' @ host @ pth @ ''?'' @ t) \<inter> set [TAB, CR, LF] = {}"
    using assms(15) by (simp add: t_def)
  obtain sr where sr: "urlsplit env u = Inr sr" "netloc sr = host" "query sr = before CHR ''#'' t"
    using urlsplit_url[OF assms(1,2,3,5,6,7,8) clean, of env] unfolding u_def by blast
  obtain p where p: "urlparse env u = Inr p" "netloc p = host" "query p = q1 @ ''v='' @ X @ r"
    using urlparse_fields[OF sr(1)] sr(2,3) bt by auto
  have x: "set X \<inter> set ''&+%'' = {}" using assms(13) by auto
  obtain ys where ys: "parse_qs env (query p) ''v'' = Some (X # ys)"
    using parse_qs_v[OF assms(9,11,12) x r] p(3) by auto
  have m: "str_in ''youtube.com'' u"
    using str_in_append[OF assms(4), of "sch @ ''://''" "pth @ ''?'' @ t"] by (simp add: u_def)
  have "extract_video_id env u = Inr X"
    using m p(1,2) ys assms(4) by (simp add: extract_video_id_def)
  then show ?thesis by (simp add: u_def t_def)
qed

theorem standard_url_v_witness:
  "str_in ''youtube.com'' ''www.youtube.com''
   \<and> parse_qs example_env ''feature=share&'' ''v'' = None
   \<and> extract_video_id example_env
        ''https://www.youtube.com/watch?feature=share&v=Q5uBEWjNeTw&t=3s#top''
      = Inr ''Q5uBEWjNeTw''"
proof -
  have 1: "''https'' \<noteq> []" by simp
  have 2: "is_ascii_alpha (hd ''https'')"
    by (simp add: is_ascii_alpha_def ascii_lower_def)
  have 3: "list_all (\<lambda>c. c \<in> set scheme_chars) ''https''"
    by (simp add: scheme_chars_def)
  have 4: "str_in ''youtube.com'' ''www.youtube.com''" by simp
  have 5: "set ''www.youtube.com'' \<inter> set ''/?#[]'' = {}" by simp
  have 6: "list_all is_ascii ''www.youtube.com''" by (simp add: is_ascii_def)
  have 7: "''/watch'' = [] \<or> hd ''/watch'' = CHR ''/''" by simp
  have 8: "set ''/watch'' \<inter> set ''?#'' = {}" by simp
  have 9: "''feature=share&'' = [] \<or> last ''feature=share&'' = CHR ''&''" by simp
  have 10: "CHR ''#'' \<notin> set ''feature=share&''" by simp
  have 11: "parse_qs example_env ''feature=share&'' ''v'' = None"
    by (simp add: parse_qs_def parse_qsl_def parse_field_def unquote_plus_def unquote_def
        before_def after_def)
  have 12: "''Q5uBEWjNeTw'' \<noteq> []" by simp
  have 13: "set ''Q5uBEWjNeTw'' \<inter> set ''&#+%'' = {}" by simp
  have 14: "''&t=3s#top'' = [] \<or> hd ''&t=3s#top'' = CHR ''&'' \<or> hd ''&t=3s#top'' = CHR ''#''"
    by simp
  have 15: "set (''https'' @ ''://'' @ ''www.youtube.com'' @ ''/watch'' @ ''?'' @ ''feature=share&''
                 @ ''v='' @ ''Q5uBEWjNeTw'' @ ''&t=3s#top'') \<inter> set [TAB, CR, LF] = {}"
    by (simp add: TAB_def CR_def LF_def)
  show ?thesis
    using 4 11 standard_url_v[OF 1 2 3 4 5 6 7 8 9 10 11 12 13 14 15] by simp
qed

text \<open>
  The claim as it is written fails for an empty \<open>X\<close>, which \<open>parse_qs\<close> skips, so that
  the last segment of the path is returned; for an \<open>X\<close> with a plus sign, which
  \<open>parse_qs\<close> decodes to a space; and for an \<open>X\<close> with a tab, which \<open>urlsplit\<close>
  removes.
\<close>

theorem standard_url_v_counterexample:
  "extract_video_id example_env ''https://www.youtube.com/watch?v='' = Inr ''watch''
   \<and> extract_video_id example_env ''https://www.youtube.com/watch?v=a+b'' = Inr ''a b''
   \<and> extract_video_id example_env (''https://www.youtube.com/watch?v=a'' @ [TAB] @ ''b'')
       = Inr ''ab''"
  by (simp add: url_defs string_defs)

subsection \<open>The bulk preloader\<close>

lemma preload_video_ok:
  assumes "v ''url'' = Some u" and "extract_video_id env u = Inr vid"
      and "files w (transcript_file vid) \<noteq> Some NoStat"
      and "sleep_range_error env r = None" and "0 \<le> r"
  shows "\<exists>e w'. preload_video env ufb (Finite r) coll v (index, w) = Inr (index @ [e], w')
           \<and> collection e = coll \<and> title e = video_title v \<and> url e = video_url v
           \<and> entry_video_id e = vid
           \<and> unwritable w' = unwritable w
           \<and> (\<forall>p. files w p \<noteq> Some NoRead \<longrightarrow> files w' p \<noteq> Some NoRead)
           \<and> (\<forall>p. files w p \<noteq> Some NoStat \<longrightarrow> files w' p \<noteq> Some NoStat)"
proof -
  obtain t m w1 where r: "get_or_create_transcript env w u ufb True None = Inr ((t, m), w1)"
      and m: "video_id m = vid" and uw: "unwritable w1 = unwritable w"
      and nr: "\<forall>p. files w p \<noteq> Some NoRead \<longrightarrow> files w1 p \<noteq> Some NoRead"
      and ns: "\<forall>p. files w p \<noteq> Some NoStat \<longrightarrow> files w1 p \<noteq> Some NoStat"
    using resolver_total[OF assms(2,3), of ufb True None] by blast
  have ns1: "files w1 (transcript_file vid) \<noteq> Some NoStat" using ns assms(3) by blast
  obtain found where f: "exists w1 (transcript_file vid) = Inr found"
  proof (cases "files w1 (transcript_file vid)")
    case None
    then have "exists w1 (transcript_file vid) = Inr False" by (simp add: exists_def)
    then show ?thesis using that by blast
  next
    case (Some x)
    then have "exists w1 (transcript_file vid) = Inr True"
      using ns1 by (cases x) (simp_all add: exists_def)
    then show ?thesis using that by blast
  qed
  show ?thesis
    using assms(1,4,5) r m uw nr ns f
    by (simp add: preload_video_def sleep_def Let_def video_title_def video_url_def)
qed

lemma videos_ok_mono:
  assumes "\<forall>v\<in>set videos. \<exists>u vid. v ''url'' = Some u \<and> extract_video_id env u = Inr vid
             \<and> files w (transcript_file vid) \<noteq> Some NoStat"
      and "\<forall>p. files w p \<noteq> Some NoStat \<longrightarrow> files w1 p \<noteq> Some NoStat"
  shows "\<forall>v\<in>set videos. \<exists>u vid. v ''url'' = Some u \<and> extract_video_id env u = Inr vid
           \<and> files w1 (transcript_file vid) \<noteq> Some NoStat"
proof
  fix v
  assume "v \<in> set videos"
  then obtain u vid where "v ''url'' = Some u" "extract_video_id env u = Inr vid"
      "files w (transcript_file vid) \<noteq> Some NoStat"
    using assms(1) by blast
  then show "\<exists>u vid. v ''url'' = Some u \<and> extract_video_id env u = Inr vid
               \<and> files w1 (transcript_file vid) \<noteq> Some NoStat"
    using assms(2) by blast
qed

lemma catalog_ok_mono:
  assumes "\<forall>(coll, videos)\<in>set curated_map. \<forall>v\<in>set videos.
             \<exists>u vid. v ''url'' = Some u \<and> extract_video_id env u = Inr vid
               \<and> files w (transcript_file vid) \<noteq> Some NoStat"
      and "\<forall>p. files w p \<noteq> Some NoStat \<longrightarrow> files w1 p \<noteq> Some NoStat"
  shows "\<forall>(coll, videos)\<in>set curated_map. \<forall>v\<in>set videos.
           \<exists>u vid. v ''url'' = Some u \<and> extract_video_id env u = Inr vid
             \<and> files w1 (transcript_file vid) \<noteq> Some NoStat"
proof
  fix cv
  assume cv: "cv \<in> set curated_map"
  obtain coll videos where c: "cv = (coll, videos)" by (cases cv)
  have "\<forall>v\<in>set videos. \<exists>u vid. v ''url'' = Some u \<and> extract_video_id env u = Inr vid
          \<and> files w (transcript_file vid) \<noteq> Some NoStat"
    using assms(1) cv c by blast
  then have "\<forall>v\<in>set videos. \<exists>u vid. v ''url'' = Some u \<and> extract_video_id env u = Inr vid
          \<and> files w1 (transcript_file vid) \<noteq> Some NoStat"
    using assms(2) by (rule videos_ok_mono)
  then show "case cv of (coll, videos) \<Rightarrow> \<forall>v\<in>set videos.
           \<exists>u vid. v ''url'' = Some u \<and> extract_video_id env u = Inr vid
             \<and> files w1 (transcript_file vid) \<noteq> Some NoStat"
    using c by simp
qed

lemma preload_videos_ok:
  assumes "\<forall>v\<in>set videos. \<exists>u vid. v ''url'' = Some u \<and> extract_video_id env u = Inr vid
             \<and> files w (transcript_file vid) \<noteq> Some NoStat"
      and "sleep_range_error env r = None" and "0 \<le> r"
  shows "\<exists>es w'. preload_videos env ufb (Finite r) coll videos (index, w) = Inr (index @ es, w')
           \<and> map (\<lambda>e. (collection e, title e, url e)) es
               = map (\<lambda>v. (coll, video_title v, video_url v)) videos
           \<and> unwritable w' = unwritable w
           \<and> (\<forall>p. files w p \<noteq> Some NoRead \<longrightarrow> files w' p \<noteq> Some NoRead)
           \<and> (\<forall>p. files w p \<noteq> Some NoStat \<longrightarrow> files w' p \<noteq> Some NoStat)"
  using assms
proof (induction videos arbitrary: index w)
  case Nil
  then show ?case by simp
next
  case (Cons v videos)
  obtain u vid where v: "v ''url'' = Some u" "extract_video_id env u = Inr vid"
      "files w (transcript_file vid) \<noteq> Some NoStat"
    using Cons.prems(1) by auto
  obtain e w1 where
      s: "preload_video env ufb (Finite r) coll v (index, w) = Inr (index @ [e], w1)"
      and e: "collection e = coll" "title e = video_title v" "url e = video_url v"
      and w1: "unwritable w1 = unwritable w"
              "\<forall>p. files w p \<noteq> Some NoRead \<longrightarrow> files w1 p \<noteq> Some NoRead"
              "\<forall>p. files w p \<noteq> Some NoStat \<longrightarrow> files w1 p \<noteq> Some NoStat"
    using preload_video_ok[where v = v and u = u and env = env and vid = vid and r = r
        and ufb = ufb and coll = coll and index = index and w = w] v Cons.prems(2,3)
    by blast
  have "\<forall>v\<in>set videos. \<exists>u vid. v ''url'' = Some u \<and> extract_video_id env u = Inr vid
          \<and> files w (transcript_file vid) \<noteq> Some NoStat"
    using Cons.prems(1) by simp
  then have rest: "\<forall>v\<in>set videos. \<exists>u vid. v ''url'' = Some u
                \<and> extract_video_id env u = Inr vid
                \<and> files w1 (transcript_file vid) \<noteq> Some NoStat"
    using w1(3) by (rule videos_ok_mono)
  obtain es w2 where
      t: "preload_videos env ufb (Finite r) coll videos (index @ [e], w1)
            = Inr ((index @ [e]) @ es, w2)"
      and es: "map (\<lambda>e. (collection e, title e, url e)) es
                 = map (\<lambda>v. (coll, video_title v, video_url v)) videos"
      and w2: "unwritable w2 = unwritable w1"
              "\<forall>p. files w1 p \<noteq> Some NoRead \<longrightarrow> files w2 p \<noteq> Some NoRead"
              "\<forall>p. files w1 p \<noteq> Some NoStat \<longrightarrow> files w2 p \<noteq> Some NoStat"
    using Cons.IH[OF rest Cons.prems(2,3), of "index @ [e]"] by blast
  have "preload_videos env ufb (Finite r) coll (v # videos) (index, w)
          = Inr (index @ (e # es), w2)"
    using s t by simp
  moreover have "map (\<lambda>e. (collection e, title e, url e)) (e # es)
                   = map (\<lambda>v. (coll, video_title v, video_url v)) (v # videos)"
    using e es by simp
  ultimately show ?case using w1 w2 by (metis (no_types, lifting))
qed

lemma preload_collections_ok:
  assumes "\<forall>(coll, videos)\<in>set curated_map. \<forall>v\<in>set videos.
             \<exists>u vid. v ''url'' = Some u \<and> extract_video_id env u = Inr vid
               \<and> files w (transcript_file vid) \<noteq> Some NoStat"
      and "sleep_range_error env r = None" and "0 \<le> r"
  shows "\<exists>es w'. preload_collections env ufb (Finite r) curated_map (index, w)
             = Inr (index @ es, w')
           \<and> map (\<lambda>e. (collection e, title e, url e)) es = catalog_entries curated_map
           \<and> unwritable w' = unwritable w
           \<and> (\<forall>p. files w p \<noteq> Some NoRead \<longrightarrow> files w' p \<noteq> Some NoRead)
           \<and> (\<forall>p. files w p \<noteq> Some NoStat \<longrightarrow> files w' p \<noteq> Some NoStat)"
  using assms
proof (induction curated_map arbitrary: index w)
  case Nil
  then show ?case by (simp add: catalog_entries_def)
next
  case (Cons cv curated_map)
  obtain coll videos where cv: "cv = (coll, videos)" by (cases cv)
  have vs: "\<forall>v\<in>set videos. \<exists>u vid. v ''url'' = Some u \<and> extract_video_id env u = Inr vid
              \<and> files w (transcript_file vid) \<noteq> Some NoStat"
    using Cons.prems(1) cv by auto
  obtain es1 w1 where
      s: "preload_videos env ufb (Finite r) coll videos (index, w) = Inr (index @ es1, w1)"
      and es1: "map (\<lambda>e. (collection e, title e, url e)) es1
                  = map (\<lambda>v. (coll, video_title v, video_url v)) videos"
      and w1: "unwritable w1 = unwritable w"
              "\<forall>p. files w p \<noteq> Some NoRead \<longrightarrow> files w1 p \<noteq> Some NoRead"
              "\<forall>p. files w p \<noteq> Some NoStat \<longrightarrow> files w1 p \<noteq> Some NoStat"
    using preload_videos_ok[OF vs Cons.prems(2,3), of ufb coll index] by blast
  have "\<forall>(coll, videos)\<in>set curated_map. \<forall>v\<in>set videos.
          \<exists>u vid. v ''url'' = Some u \<and> extract_video_id env u = Inr vid
            \<and> files w (transcript_file vid) \<noteq> Some NoStat"
    using Cons.prems(1) by simp
  then have rest: "\<forall>(coll, videos)\<in>set curated_map. \<forall>v\<in>set videos.
                \<exists>u vid. v ''url'' = Some u \<and> extract_video_id env u = Inr vid
                  \<and> files w1 (transcript_file vid) \<noteq> Some NoStat"
    using w1(3) by (rule catalog_ok_mono)
  obtain es2 w2 where
      t: "preload_collections env ufb (Finite r) curated_map (index @ es1, w1)
            = Inr ((index @ es1) @ es2, w2)"
      and es2: "map (\<lambda>e. (collection e, title e, url e)) es2 = catalog_entries curated_map"
      and w2: "unwritable w2 = unwritable w1"
              "\<forall>p. files w1 p \<noteq> Some NoRead \<longrightarrow> files w2 p \<noteq> Some NoRead"
              "\<forall>p. files w1 p \<noteq> Some NoStat \<longrightarrow> files w2 p \<noteq> Some NoStat"
    using Cons.IH[OF rest Cons.prems(2,3), of "index @ es1"] by blast
  have "preload_collections env ufb (Finite r) (cv # curated_map) (index, w)
          = Inr (index @ (es1 @ es2), w2)"
    using s t cv by simp
  moreover have "map (\<lambda>e. (collection e, title e, url e)) (es1 @ es2)
                   = catalog_entries (cv # curated_map)"
    using es1 es2 cv by (simp add: catalog_entries_def)
  ultimately show ?case using w1 w2 by (metis (no_types, lifting))
qed

lemma length_catalog_entries:
  "length (catalog_entries curated_map) = sum_list (map (\<lambda>(coll, videos). length videos) curated_map)"
  by (induction curated_map) (auto simp: catalog_entries_def)

text \<open>
  C3. For a catalog in which every entry has a url that the extractor accepts and an
  identifier about which the store can be asked, with a delay that is finite, not
  negative and of a size that \<open>sleep\<close> does not refuse, and an index file that can be
  written, the preloader returns one index entry per catalog entry, in the order of
  the traversal of the catalog (so N entries for a catalog of N), each with the
  collection, title and url of its catalog entry, and the index file holds the JSON
  text of that sequence.
\<close>

theorem preload_index:
  assumes "\<forall>(coll, videos)\<in>set curated_map. \<forall>v\<in>set videos.
             \<exists>u vid. v ''url'' = Some u \<and> extract_video_id env u = Inr vid
               \<and> files w (transcript_file vid) \<noteq> Some NoStat"
      and "sleep_range_error env r = None" and "0 \<le> r"
      and "index_path \<notin> unwritable w" and "files w index_path \<noteq> Some NoRead"
  shows "\<exists>index w'.
           preload_curated_transcripts env w curated_map use_youtube_fallback (Finite r)
             = Inr (index, w')
           \<and> length index = sum_list (map (\<lambda>(coll, videos). length videos) curated_map)
           \<and> map (\<lambda>e. (collection e, title e, url e)) index = catalog_entries curated_map
           \<and> files w' index_path = Some (Text (json_dumps index))"
proof -
  obtain es w1 where
      s: "preload_collections env use_youtube_fallback (Finite r) curated_map ([], w)
            = Inr ([] @ es, w1)"
      and es: "map (\<lambda>e. (collection e, title e, url e)) es = catalog_entries curated_map"
      and w1: "unwritable w1 = unwritable w"
              "\<forall>p. files w p \<noteq> Some NoRead \<longrightarrow> files w1 p \<noteq> Some NoRead"
    using preload_collections_ok[OF assms(1,2,3), of use_youtube_fallback "[]"] by blast
  have wr: "index_path \<notin> unwritable w1" "files w1 index_path \<noteq> Some NoRead"
    using assms(4,5) w1 by auto
  let ?w2 = "w1\<lparr>files := (files w1)(index_path \<mapsto> Text (json_dumps es))\<rparr>"
  have "write_text w1 index_path (json_dumps es) = Inr ?w2"
    using wr by (auto simp: write_text_def split: option.splits fs_entry.splits)
  then have r: "preload_curated_transcripts env w curated_map use_youtube_fallback (Finite r)
               = Inr (es, ?w2)"
    using s by (simp add: preload_curated_transcripts_def)
  have "length es = length (catalog_entries curated_map)"
    using es by (metis length_map)
  then have l: "length es = sum_list (map (\<lambda>(coll, videos). length videos) curated_map)"
    by (simp add: length_catalog_entries)
  show ?thesis using r l es by simp
qed

theorem preload_index_witness:
  "sleep_range_error example_env (3 / 2) = None
   \<and> (0::real) \<le> 3 / 2
   \<and> index_path \<notin> unwritable empty_world
   \<and> files empty_world index_path \<noteq> Some NoRead
   \<and> (\<exists>index w'.
         preload_curated_transcripts example_env empty_world
           [(''soups'', [[''title'' \<mapsto> ''A'', ''url'' \<mapsto> ''abc123''],
                         [''url'' \<mapsto> ''https://youtu.be/xyz'']]),
            (''stews'', [[''title'' \<mapsto> ''C'', ''url'' \<mapsto> ''id3'']])]
           True (Finite (3 / 2))
           = Inr (index, w')
         \<and> length index = 3
         \<and> map (\<lambda>e. (collection e, title e, url e)) index
             = [(''soups'', ''A'', ''abc123''), (''soups'', [], ''https://youtu.be/xyz''),
                (''stews'', ''C'', ''id3'')]
         \<and> files w' index_path = Some (Text (json_dumps index)))"
proof -
  let ?cat = "[(''soups'', [[''title'' \<mapsto> ''A'', ''url'' \<mapsto> ''abc123''],
                            [''url'' \<mapsto> ''https://youtu.be/xyz'']]),
               (''stews'', [[''title'' \<mapsto> ''C'', ''url'' \<mapsto> ''id3'']])]
              :: (string \<times> (string \<rightharpoonup> string) list) list"
  have a: "extract_video_id example_env ''https://youtu.be/xyz'' = Inr ''xyz''"
    by (simp add: url_defs string_defs example_env_def)
  have b: "extract_video_id example_env ''id3'' = Inr ''id3''"
    by (simp add: extract_video_id_def string_defs)
  have 1: "\<forall>(coll, videos)\<in>set ?cat. \<forall>v\<in>set videos.
             \<exists>u vid. v ''url'' = Some u \<and> extract_video_id example_env u = Inr vid
               \<and> files empty_world (transcript_file vid) \<noteq> Some NoStat"
    by (simp add: a b example_ids empty_world_def)
  have 2: "sleep_range_error example_env (3 / 2) = None" by (simp add: example_env_def)
  have 3: "(0::real) \<le> 3 / 2" by simp
  have 4: "index_path \<notin> unwritable empty_world" by (simp add: empty_world_def)
  have 5: "files empty_world index_path \<noteq> Some NoRead" by (simp add: empty_world_def)
  have 6: "catalog_entries ?cat
             = [(''soups'', ''A'', ''abc123''), (''soups'', [], ''https://youtu.be/xyz''),
                (''stews'', ''C'', ''id3'')]"
    by (simp add: catalog_entries_def video_title_def video_url_def)
  have 7: "sum_list (map (\<lambda>(coll, videos). length videos) ?cat) = 3" by simp
  show ?thesis
    using 2 3 4 5 preload_index[OF 1 2 3 4 5, of True] unfolding 6 7 by blast
qed

text \<open>
  The claim as it is written fails for a catalog with a url that \<open>urlparse\<close> rejects:
  the \<open>ValueError\<close> for the unmatched bracket leaves the preloader, which returns no
  index and writes no index file. The preloader also raises, for the catalog of the
  scenario below, when the index file cannot be written, when the delay is negative
  and when it is infinite; and it raises for an entry whose identifier has a file
  name that the file system finds too long.
\<close>

theorem preload_index_counterexample:
  "preload_curated_transcripts example_env empty_world
     [(''test'', [[''title'' \<mapsto> ''A'', ''url'' \<mapsto> ''http://[youtu.be/x'']])] True
     (Finite (3 / 2))
   = Inl ValueError
   \<and> preload_curated_transcripts example_env no_index_world
       [(''test'', [[''title'' \<mapsto> ''A'', ''url'' \<mapsto> ''abc123'']])] False (Finite (3 / 2))
     = Inl OSError
   \<and> preload_curated_transcripts example_env empty_world
       [(''test'', [[''title'' \<mapsto> ''A'', ''url'' \<mapsto> ''abc123'']])] False (Finite (- 1))
     = Inl ValueError
   \<and> preload_curated_transcripts example_env empty_world
       [(''test'', [[''title'' \<mapsto> ''A'', ''url'' \<mapsto> ''abc123'']])] False PosInf
     = Inl OverflowError
   \<and> preload_curated_transcripts example_env linux_world
       [(''test'', [[''title'' \<mapsto> ''A'', ''url'' \<mapsto> long_id]])] False (Finite (3 / 2))
     = Inl OSError"
proof -
  have x: "extract_video_id example_env ''http://[youtu.be/x'' = Inl ValueError"
    by (simp add: url_defs string_defs)
  have a: "preload_curated_transcripts example_env empty_world
             [(''test'', [[''title'' \<mapsto> ''A'', ''url'' \<mapsto> ''http://[youtu.be/x'']])] True
             (Finite (3 / 2))
           = Inl ValueError"
    using x by (simp add: preload_curated_transcripts_def preload_video_def
        get_or_create_transcript_def)
  have s: "preload_video example_env False d ''test'' [''title'' \<mapsto> ''A'', ''url'' \<mapsto> ''abc123'']
             ([], w)
           = (case sleep example_env d w of
                Inl e \<Rightarrow> Inl e
              | Inr w2 \<Rightarrow>
                  Inr ([\<lparr>collection = ''test'', title = ''A'', url = ''abc123'',
                          entry_video_id = ''abc123'', transcript_source = ''none'',
                          transcript_path = None\<rparr>], w2))"
    if "files w ''data/transcripts/abc123.txt'' = None" for d w
    using that
    by (simp add: preload_video_def get_or_create_transcript_def example_ids
        load_local_transcript_def exists_def Let_def split: sum.splits)
  have s1: "sleep example_env (Finite (3 / 2)) w = Inr (w\<lparr>events := events w @ [Sleep (3 / 2)]\<rparr>)"
    for w by (simp add: sleep_def example_env_def)
  have s2: "sleep example_env (Finite (- 1)) w = Inl ValueError"
    for w by (simp add: sleep_def example_env_def)
  have s3: "sleep example_env PosInf w = Inl OverflowError"
    for w by (simp add: sleep_def)
  have b: "preload_curated_transcripts example_env no_index_world
             [(''test'', [[''title'' \<mapsto> ''A'', ''url'' \<mapsto> ''abc123'']])] False (Finite (3 / 2))
           = Inl OSError"
    by (simp add: preload_curated_transcripts_def s s1 write_text_def
        no_index_world_def empty_world_def index_path_def)
  have c: "preload_curated_transcripts example_env empty_world
             [(''test'', [[''title'' \<mapsto> ''A'', ''url'' \<mapsto> ''abc123'']])] False (Finite (- 1))
           = Inl ValueError"
    by (simp add: preload_curated_transcripts_def s s2 empty_world_def)
  have d: "preload_curated_transcripts example_env empty_world
             [(''test'', [[''title'' \<mapsto> ''A'', ''url'' \<mapsto> ''abc123'']])] False PosInf
           = Inl OverflowError"
    by (simp add: preload_curated_transcripts_def s s3 empty_world_def)
  have "get_or_create_transcript example_env linux_world long_id False True None = Inl OSError"
    using long_id_extract long_id_linux by (rule resolver_raises)
  then have e: "preload_curated_transcripts example_env linux_world
             [(''test'', [[''title'' \<mapsto> ''A'', ''url'' \<mapsto> long_id]])] False (Finite (3 / 2))
           = Inl OSError"
    by (simp add: preload_curated_transcripts_def preload_video_def)
  show ?thesis by (intro conjI a b c d e)
qed

text \<open>
  The scenario of the specification: one entry with a bare identifier, an empty store
  and the fallback disabled.
\<close>

lemma preload_scenario:
  "map_sum id fst
     (preload_curated_transcripts example_env empty_world
        [(''test'', [[''title'' \<mapsto> ''A'', ''url'' \<mapsto> ''abc123'']])] False (Finite (3 / 2)))
   = Inr [\<lparr>collection = ''test'', title = ''A'', url = ''abc123'', entry_video_id = ''abc123'',
           transcript_source = ''none'', transcript_path = None\<rparr>]"
proof -
  have s: "sleep_range_error example_env (3 / 2) = None" by (simp add: example_env_def)
  show ?thesis
    by (simp add: preload_curated_transcripts_def preload_video_def get_or_create_transcript_def
        example_ids load_local_transcript_def exists_def write_text_def sleep_def s
        empty_world_def Let_def)
qed

subsection \<open>The index reader\<close>

text \<open>
  C8. When the index file does not exist, the index reader returns the empty
  sequence and does not raise. When it exists as a readable text file, the reader
  returns what \<open>json.loads\<close> makes of its text.
\<close>

theorem load_curated_index_cases:
  "(files w index_path = None \<longrightarrow> load_curated_index env w = Inr (JArray []))
   \<and> (\<forall>raw. files w index_path = Some (Text raw)
         \<longrightarrow> load_curated_index env w = json_loads env (universal_newlines raw))"
  by (simp add: load_curated_index_def exists_def read_text_def)

theorem load_curated_index_cases_witness:
  "files empty_world index_path = None
   \<and> load_curated_index example_env empty_world = Inr (JArray [])
   \<and> files indexed_world index_path = Some (Text ''[null]'')
   \<and> load_curated_index example_env indexed_world = Inr (JArray [JNull])"
proof -
  have 1: "files empty_world index_path = None" by (simp add: empty_world_def)
  have 2: "files indexed_world index_path = Some (Text ''[null]'')"
    by (simp add: indexed_world_def empty_world_def index_path_def)
  have 3: "json_loads example_env (universal_newlines ''[null]'') = Inr (JArray [JNull])"
    by (simp add: example_env_def CR_def)
  show ?thesis
    using 1 2 3 load_curated_index_cases[of empty_world example_env]
      load_curated_index_cases[of indexed_world example_env]
    by simp
qed

end
